theory Spec2Isabelle
  imports Main "HOL-Library.Word"
begin

unbundle bit_operations_syntax

section \<open>The i2c-rpmsg driver (drivers/i2c/busses/i2c-rpmsg-imx.c)\<close>

text \<open>
  The driver tunnels I2C messages to a remote core over an rpmsg channel. Each I2C
  message becomes one request frame (\<open>struct i2c_rpmsg_msg\<close>); the answer is taken by
  the receive callback \<open>i2c_rpmsg_cb\<close>, which stores the address of the receive buffer
  that holds it in the global \<open>i2c_rpmsg\<close> and fires a completion the sender waits for.
  The sender then reads the answer through that address.

  The embedding is sequential. The mutex of \<open>i2c_rpbus_xfer\<close> is taken on entry and
  released on every exit; it has no effect on one thread of control and is left out.
  C \<open>int\<close> values are HOL integers: the only arithmetic on them is the negation of a
  \<open>u8\<close> and the promotion of a \<open>u16\<close>, neither of which can overflow.
\<close>

type_synonym u8 = "8 word"
type_synonym u16 = "16 word"

subsection \<open>Constants\<close>

definition I2C_RPMSG_MAX_BUF_SIZE :: nat where "I2C_RPMSG_MAX_BUF_SIZE = 16"
definition I2C_RPMSG_CATEGORY :: u8 where "I2C_RPMSG_CATEGORY = 0x09"
definition I2C_RPMSG_VERSION :: u16 where "I2C_RPMSG_VERSION = 0x0001"
definition I2C_RPMSG_TYPE_REQUEST :: u8 where "I2C_RPMSG_TYPE_REQUEST = 0x00"
definition I2C_RPMSG_TYPE_RESPONSE :: u8 where "I2C_RPMSG_TYPE_RESPONSE = 0x01"
definition I2C_RPMSG_COMMAND_READ :: u8 where "I2C_RPMSG_COMMAND_READ = 0x00"
definition I2C_RPMSG_COMMAND_WRITE :: u8 where "I2C_RPMSG_COMMAND_WRITE = 0x01"
definition I2C_RPMSG_PRIORITY :: u8 where "I2C_RPMSG_PRIORITY = 0x01"
definition I2C_RPMSG_M_STOP :: u16 where "I2C_RPMSG_M_STOP = 0x0200"

text \<open>
  Modelled from the spec: the read-direction bit of \<open>i2c_msg.flags\<close> and the three
  error kinds the driver returns negated (invalid argument, protocol mismatch, timeout)
  are constants of kernel headers the driver includes (\<open>linux/i2c.h\<close> and the errno
  headers); the values are the ones those headers give.
\<close>

definition I2C_M_RD :: u16 where "I2C_M_RD = 0x0001"
definition EINVAL :: int where "EINVAL = 22"
definition EPROTO :: int where "EPROTO = 71"
definition ETIMEDOUT :: int where "ETIMEDOUT = 110"

subsection \<open>Data\<close>

text \<open>
  Modelled from the spec: \<open>struct imx_rpmsg_head\<close> is declared in
  \<open>linux/imx_rpmsg.h\<close>; the driver writes its
  fields \<open>cate\<close>, \<open>major\<close>, \<open>minor\<close>, \<open>type\<close>, \<open>cmd\<close> and \<open>reserved[0]\<close> (bytes 0 to 9 of
  the frame in the table at the head of the source file). Record fields carry a prefix
  per struct, since several structs of the driver share field names.
\<close>

record imx_rpmsg_head =
  h_cate :: u8
  h_major :: u8
  h_minor :: u8
  h_type :: u8
  h_cmd :: u8
  h_reserved :: "u8 list"

text \<open>\<open>struct i2c_rpmsg_msg\<close>, the frame on the wire.\<close>

record i2c_rpmsg_msg =
  r_header :: imx_rpmsg_head
  r_bus_id :: u8
  r_ret_val :: u8
  r_addr :: u16
  r_flags :: u16
  r_len :: u16
  r_buf :: "u8 list"

text \<open>
  \<open>struct i2c_rpmsg_info\<close>, of which the driver has one instance, the global
  \<open>i2c_rpmsg\<close>. \<open>i_rpdev\<close> says whether the pointer \<open>rpdev\<close> is non-NULL, \<open>i_msg\<close> is the
  pointer \<open>msg\<close> (\<open>None\<close> for NULL, else the address of a receive buffer of the
  channel), and \<open>i_cmd_complete\<close> is the counter \<open>done\<close> of the completion
  \<open>cmd_complete\<close>.
\<close>

record i2c_rpmsg_info =
  i_rpdev :: bool
  i_msg :: "nat option"
  i_cmd_complete :: nat
  i_bus_id :: u8
  i_addr :: u16

text \<open>
  \<open>struct i2c_msg\<close> of the I2C core: \<open>m_buf\<close> is the pointer \<open>buf\<close>, an address in the
  store of caller buffers below, so that two messages may share one buffer.
\<close>

record i2c_msg =
  m_addr :: u16
  m_flags :: u16
  m_len :: u16
  m_buf :: nat

text \<open>
  A delivery of the rpmsg channel: the address of the receive buffer the channel
  filled, the frame it put there, and the byte count it reports. The channel owns the
  receive buffers and may fill the same one again for a later delivery.

  What the channel does around one call of \<open>rpmsg_send\<close>: the value the call returns,
  and the deliveries that reach the receive callback from the moment the completion is
  re-armed until the waiter of \<open>rpmsg_xfer\<close> runs again (after a completion or after the
  timeout of 500 ms). A channel is the sequence of these, indexed by the number of
  frames sent before. A delivery at any other moment is \<open>deliver\<close> on the state between
  two calls of the driver; from the end of the wait to the return of the read or write
  the driver runs without a delivery in between.
\<close>

type_synonym delivery = "nat \<times> i2c_rpmsg_msg \<times> int"

record chan_step =
  send_ret :: int
  replies :: "delivery list"

type_synonym chan = "nat \<Rightarrow> chan_step"

text \<open>
  The state the driver works on: the global \<open>i2c_rpmsg\<close>, the frames handed to
  \<open>rpmsg_send\<close> so far (oldest first), the caller buffers by address, and the receive
  buffers of the channel by address, each read as a \<open>struct i2c_rpmsg_msg\<close>.
\<close>

record world =
  i2c_rpmsg :: i2c_rpmsg_info
  sent :: "i2c_rpmsg_msg list"
  mem :: "nat \<Rightarrow> u8 list"
  rxbuf :: "nat \<Rightarrow> i2c_rpmsg_msg"

subsection \<open>Kernel primitives the driver calls\<close>

text \<open>
  Modelled from the spec: the completion (\<open>complete\<close>, \<open>reinit_completion\<close>,
  \<open>wait_for_completion_timeout\<close>), \<open>rpmsg_send\<close> and \<open>memcpy\<close> are kernel services
  outside the driver's file; the spec describes them as a single-resolution completion
  signal with a bounded wait, a send primitive that accepts or rejects a frame, and a
  copy of the response payload. The counter of the completion is a natural number;
  the driver only tests whether it is 0.
\<close>

definition complete :: "i2c_rpmsg_info \<Rightarrow> i2c_rpmsg_info" where
  "complete g = g\<lparr>i_cmd_complete := Suc (i_cmd_complete g)\<rparr>"

definition reinit_completion :: "i2c_rpmsg_info \<Rightarrow> i2c_rpmsg_info" where
  "reinit_completion g = g\<lparr>i_cmd_complete := 0\<rparr>"

definition memcpy :: "u8 list \<Rightarrow> u8 list \<Rightarrow> nat \<Rightarrow> u8 list" where
  "memcpy dst src n = take n src @ drop n dst"

definition rpmsg_send :: "chan_step \<Rightarrow> i2c_rpmsg_msg \<Rightarrow> world \<Rightarrow> int \<times> world" where
  "rpmsg_send step rmsg w = (send_ret step, w\<lparr>sent := sent w @ [rmsg]\<rparr>)"

subsection \<open>The receive callback\<close>

text \<open>
  \<open>i2c_rpmsg_cb\<close> (lines 123 to 151). \<open>data\<close> is the pointer the function gets, the
  address of a receive buffer, which it reads through the cast pointer \<open>msg\<close>; what it
  stores at line 146 is the pointer, not the frame. \<open>dlen\<close> is the parameter \<open>len\<close>, the
  byte count of the delivery, which the function never reads.
\<close>

definition i2c_rpmsg_cb :: "nat \<Rightarrow> int \<Rightarrow> world \<Rightarrow> int \<times> world" where
  "i2c_rpmsg_cb data dlen w =
     (if h_type (r_header (rxbuf w data)) \<noteq> I2C_RPMSG_TYPE_RESPONSE then (- EINVAL, w)
      else if r_bus_id (rxbuf w data) \<noteq> i_bus_id (i2c_rpmsg w) \<or>
              r_addr (rxbuf w data) \<noteq> i_addr (i2c_rpmsg w) then (- EINVAL, w)
      else if I2C_RPMSG_MAX_BUF_SIZE < unat (r_len (rxbuf w data)) then (- EINVAL, w)
      else (0, w\<lparr>i2c_rpmsg := complete ((i2c_rpmsg w)\<lparr>i_msg := Some data\<rparr>)\<rparr>))"

text \<open>
  The channel, for each delivery in turn, fills the receive buffer and runs the
  callback on its address.
\<close>

fun deliver :: "delivery list \<Rightarrow> world \<Rightarrow> world" where
  "deliver [] w = w"
| "deliver (d # ds) w =
     deliver ds (snd (i2c_rpmsg_cb (fst d) (snd (snd d))
                        (w\<lparr>rxbuf := (rxbuf w)(fst d := fst (snd d))\<rparr>)))"

text \<open>
  The wait: the deliveries of the window reach the callback; the wait returns 0 when
  the completion has not fired by then (the timeout), else it takes one completion and
  returns a positive number of remaining jiffies, of which the driver only tests that
  it is not 0.
\<close>

definition wait_for_completion_timeout :: "chan_step \<Rightarrow> world \<Rightarrow> nat \<times> world" where
  "wait_for_completion_timeout step w =
     (let w1 = deliver (replies step) w
      in if i_cmd_complete (i2c_rpmsg w1) = 0 then (0, w1)
         else (1, w1\<lparr>i2c_rpmsg :=
                    (i2c_rpmsg w1)\<lparr>i_cmd_complete := i_cmd_complete (i2c_rpmsg w1) - 1\<rparr>\<rparr>))"

subsection \<open>One exchange\<close>

text \<open>
  \<open>rpmsg_xfer\<close> (lines 153 to 178). \<open>info->msg->ret_val\<close> at lines 171 and 174 reads
  the receive buffer the stored pointer names, as it is when the waiter runs again.
  The result is \<open>None\<close> where the C code dereferences the NULL pointer \<open>info->msg\<close>.
\<close>

definition rpmsg_xfer :: "chan \<Rightarrow> i2c_rpmsg_msg \<Rightarrow> world \<Rightarrow> (int \<times> world) option" where
  "rpmsg_xfer ch rmsg w =
     (let step = ch (length (sent w));
          (ret, w1) = rpmsg_send step rmsg w
      in if ret < 0 then Some (ret, w1)
         else
           let (t, w2) = wait_for_completion_timeout step w1
           in if t = 0 then Some (- ETIMEDOUT, w2)
              else (case i_msg (i2c_rpmsg w2) of
                      None \<Rightarrow> None
                    | Some p \<Rightarrow>
                        if r_ret_val (rxbuf w2 p) \<noteq> 0
                        then Some (- int (unat (r_ret_val (rxbuf w2 p))), w2)
                        else Some (0, w2)))"

subsection \<open>Read and write of one message\<close>

text \<open>
  The request frame both functions build after \<open>memset\<close> (lines 196 to 210 and 246 to
  260); they differ in the command only.
\<close>

definition request_frame :: "u8 \<Rightarrow> i2c_msg \<Rightarrow> int \<Rightarrow> bool \<Rightarrow> i2c_rpmsg_msg" where
  "request_frame cmd pmsg bus is_last =
     \<lparr>r_header =
        \<lparr>h_cate = I2C_RPMSG_CATEGORY,
         h_major = ucast I2C_RPMSG_VERSION,
         h_minor = ucast (drop_bit 8 I2C_RPMSG_VERSION),
         h_type = I2C_RPMSG_TYPE_REQUEST,
         h_cmd = cmd,
         h_reserved = (replicate 5 0)[0 := I2C_RPMSG_PRIORITY]\<rparr>,
      r_bus_id = word_of_int bus,
      r_ret_val = 0,
      r_addr = m_addr pmsg,
      r_flags = (if is_last then m_flags pmsg OR I2C_RPMSG_M_STOP else m_flags pmsg),
      r_len = m_len pmsg,
      r_buf = replicate I2C_RPMSG_MAX_BUF_SIZE 0\<rparr>"

text \<open>
  \<open>i2c_rpmsg_read\<close> (lines 180 to 228). The message itself is only read; the payload
  goes to the buffer \<open>msg->buf\<close> points to. \<open>info->msg->len\<close> and \<open>info->msg->buf\<close> at
  lines 219 and 225 read the receive buffer the stored pointer names.
\<close>

definition i2c_rpmsg_read :: "chan \<Rightarrow> i2c_msg \<Rightarrow> world \<Rightarrow> int \<Rightarrow> bool \<Rightarrow> (int \<times> world) option" where
  "i2c_rpmsg_read ch pmsg w bus is_last =
     (if \<not> i_rpdev (i2c_rpmsg w) then Some (- EINVAL, w)
      else if I2C_RPMSG_MAX_BUF_SIZE < unat (m_len pmsg) then Some (- EINVAL, w)
      else
        let rmsg = request_frame I2C_RPMSG_COMMAND_READ pmsg bus is_last;
            w1 = w\<lparr>i2c_rpmsg := reinit_completion (i2c_rpmsg w)\<rparr>
        in case rpmsg_xfer ch rmsg w1 of
             None \<Rightarrow> None
           | Some (ret, w2) \<Rightarrow>
               if ret \<noteq> 0 then Some (ret, w2)
               else (case i_msg (i2c_rpmsg w2) of
                       None \<Rightarrow> Some (- EPROTO, w2)
                     | Some p \<Rightarrow>
                         if r_len (rxbuf w2 p) \<noteq> m_len pmsg then Some (- EPROTO, w2)
                         else Some (int (unat (m_len pmsg)),
                                w2\<lparr>mem := (mem w2)(m_buf pmsg :=
                                      memcpy (mem w2 (m_buf pmsg)) (r_buf (rxbuf w2 p))
                                        (unat (r_len (rxbuf w2 p))))\<rparr>)))"

text \<open>
  The copy loop of \<open>i2c_rpmsg_write\<close> (lines 262 and 263), from index \<open>i\<close> on. A caller
  buffer holds at least \<open>len\<close> bytes; a shorter one is read out of range in C and
  \<open>src ! i\<close> is unspecified here.
\<close>

function write_copy :: "nat \<Rightarrow> u8 list \<Rightarrow> i2c_rpmsg_msg \<Rightarrow> i2c_rpmsg_msg" where
  "write_copy i src rmsg =
     (if i < unat (r_len rmsg)
      then write_copy (Suc i) src (rmsg\<lparr>r_buf := (r_buf rmsg)[i := src ! i]\<rparr>)
      else rmsg)"
  by pat_completeness auto
termination
  by (relation "measure (\<lambda>(i, src, rmsg). unat (r_len rmsg) - i)") auto

text \<open>
  \<open>i2c_rpmsg_write\<close> (lines 230 to 272). Its \<open>info\<close> is the address of the global
  \<open>i2c_rpmsg\<close>, never NULL. It reads the message and its buffer and writes neither.
\<close>

definition i2c_rpmsg_write :: "chan \<Rightarrow> i2c_msg \<Rightarrow> world \<Rightarrow> int \<Rightarrow> bool \<Rightarrow> (int \<times> world) option" where
  "i2c_rpmsg_write ch pmsg w bus is_last =
     (if \<not> i_rpdev (i2c_rpmsg w) then Some (- EINVAL, w)
      else if I2C_RPMSG_MAX_BUF_SIZE < unat (m_len pmsg) then Some (- EINVAL, w)
      else
        let rmsg = write_copy 0 (mem w (m_buf pmsg))
                     (request_frame I2C_RPMSG_COMMAND_WRITE pmsg bus is_last);
            w1 = w\<lparr>i2c_rpmsg := reinit_completion (i2c_rpmsg w)\<rparr>
        in case rpmsg_xfer ch rmsg w1 of
             None \<Rightarrow> None
           | Some (ret, w2) \<Rightarrow> Some (ret, w2))"

subsection \<open>The transfer\<close>

text \<open>
  Lines 332 and 333: the bus and address the callback compares the next frame with.
\<close>

definition expecting :: "int \<Rightarrow> i2c_msg \<Rightarrow> i2c_rpmsg_info \<Rightarrow> i2c_rpmsg_info" where
  "expecting nr pmsg g = g\<lparr>i_bus_id := word_of_int nr, i_addr := m_addr pmsg\<rparr>"

text \<open>
  One pass through the body of the loop of \<open>i2c_rpbus_xfer\<close> (lines 327 to 351) at
  index \<open>i\<close>: the result of the read or write, the loop variable \<open>is_last\<close>, the
  messages and the state after it. \<open>i < num\<close> in the loop, so \<open>num - 1\<close> is not negative.
\<close>

definition i2c_rpbus_xfer_iter ::
  "chan \<Rightarrow> int \<Rightarrow> nat \<Rightarrow> nat \<Rightarrow> bool \<Rightarrow> i2c_msg list \<Rightarrow> world \<Rightarrow> (int \<times> bool \<times> i2c_msg list \<times> world) option" where
  "i2c_rpbus_xfer_iter ch nr num i is_last msgs w =
     (let is_last1 = (if i = num - 1 then True else is_last);
          pmsg = msgs ! i;
          w1 = w\<lparr>i2c_rpmsg := expecting nr pmsg (i2c_rpmsg w)\<rparr>
      in if m_flags pmsg AND I2C_M_RD \<noteq> 0 then
           (case i2c_rpmsg_read ch pmsg w1 nr is_last1 of
              None \<Rightarrow> None
            | Some (ret, w2) \<Rightarrow>
                if ret < 0 then Some (ret, is_last1, msgs, w2)
                else Some (ret, is_last1, msgs[i := pmsg\<lparr>m_len := word_of_int ret\<rparr>], w2))
         else
           (case i2c_rpmsg_write ch pmsg w1 nr is_last1 of
              None \<Rightarrow> None
            | Some (ret, w2) \<Rightarrow> Some (ret, is_last1, msgs, w2)))"

text \<open>The loop from index \<open>i\<close> on: a negative result leaves it, else the next index.\<close>

function i2c_rpbus_xfer_loop ::
  "chan \<Rightarrow> int \<Rightarrow> nat \<Rightarrow> nat \<Rightarrow> bool \<Rightarrow> i2c_msg list \<Rightarrow> world \<Rightarrow> (int \<times> i2c_msg list \<times> world) option" where
  "i2c_rpbus_xfer_loop ch nr num i is_last msgs w =
     (if i < num then
        (case i2c_rpbus_xfer_iter ch nr num i is_last msgs w of
           None \<Rightarrow> None
         | Some (ret, is_last1, msgs1, w1) \<Rightarrow>
             if ret < 0 then Some (ret, msgs1, w1)
             else i2c_rpbus_xfer_loop ch nr num (Suc i) is_last1 msgs1 w1)
      else Some (int num, msgs, w))"
  by pat_completeness auto
termination
  by (relation "measure (\<lambda>(ch, nr, num, i, is_last, msgs, w). num - i)") auto

text \<open>
  \<open>i2c_rpbus_xfer\<close> (lines 315 to 356) on the adapter number \<open>nr\<close> and the array
  \<open>msgs\<close>, whose length is the parameter \<open>num\<close>.
\<close>

definition i2c_rpbus_xfer :: "chan \<Rightarrow> int \<Rightarrow> i2c_msg list \<Rightarrow> world \<Rightarrow> (int \<times> i2c_msg list \<times> world) option" where
  "i2c_rpbus_xfer ch nr msgs w = i2c_rpbus_xfer_loop ch nr (length msgs) 0 False msgs w"

subsection \<open>Notions the properties are stated with\<close>

text \<open>
  The deliveries of a window that the callback takes, that is, on which
  \<open>i2c_rpmsg_cb\<close> returns 0 once the channel has filled the buffer; and the receive
  buffers after the deliveries of a window.
\<close>

definition takes :: "world \<Rightarrow> delivery \<Rightarrow> bool" where
  "takes w d =
     (fst (i2c_rpmsg_cb (fst d) (snd (snd d)) (w\<lparr>rxbuf := (rxbuf w)(fst d := fst (snd d))\<rparr>)) = 0)"

definition accepted :: "world \<Rightarrow> delivery list \<Rightarrow> delivery list" where
  "accepted w ds = filter (takes w) ds"

fun written :: "delivery list \<Rightarrow> (nat \<Rightarrow> i2c_rpmsg_msg) \<Rightarrow> (nat \<Rightarrow> i2c_rpmsg_msg)" where
  "written [] rx = rx"
| "written (d # ds) rx = written ds (rx(fst d := fst (snd d)))"

text \<open>
  The answer an exchange started in state \<open>w\<close> reads when the deliveries \<open>ds\<close> reach the
  callback during its wait: \<open>None\<close> when the wait times out, else what the receive
  buffer the stored pointer names holds when the waiter runs again.
\<close>

definition answer :: "delivery list \<Rightarrow> world \<Rightarrow> i2c_rpmsg_msg option" where
  "answer ds w =
     (let w1 = deliver ds (w\<lparr>i2c_rpmsg := reinit_completion (i2c_rpmsg w)\<rparr>)
      in if i_cmd_complete (i2c_rpmsg w1) = 0 then None
         else map_option (rxbuf w1) (i_msg (i2c_rpmsg w1)))"

text \<open>
  The variables of the loop of \<open>i2c_rpbus_xfer\<close> at the head of pass \<open>k\<close>, when the
  passes before it all ran and none returned a negative result; \<open>None\<close> otherwise.
\<close>

fun xfer_state ::
  "chan \<Rightarrow> int \<Rightarrow> i2c_msg list \<Rightarrow> world \<Rightarrow> nat \<Rightarrow> (bool \<times> i2c_msg list \<times> world) option" where
  "xfer_state ch nr msgs w 0 = Some (False, msgs, w)"
| "xfer_state ch nr msgs w (Suc k) =
     (case xfer_state ch nr msgs w k of
        None \<Rightarrow> None
      | Some (is_last, ms, wk) \<Rightarrow>
          (case i2c_rpbus_xfer_iter ch nr (length msgs) k is_last ms wk of
             None \<Rightarrow> None
           | Some (ret, is_last1, ms1, w1) \<Rightarrow>
               if ret < 0 then None else Some (is_last1, ms1, w1)))"

text \<open>
  The global \<open>i2c_rpmsg\<close> after \<open>i2c_rpmsg_probe\<close> (lines 274 to 292): a static
  struct, so all zero, with \<open>rpdev\<close> set. The state then, with nothing sent, no caller
  buffer and every receive buffer zero.
\<close>

definition probed :: i2c_rpmsg_info where
  "probed = \<lparr>i_rpdev = True, i_msg = None, i_cmd_complete = 0, i_bus_id = 0, i_addr = 0\<rparr>"

definition no_frame :: i2c_rpmsg_msg where
  "no_frame =
     \<lparr>r_header = \<lparr>h_cate = 0, h_major = 0, h_minor = 0, h_type = 0, h_cmd = 0,
                   h_reserved = [0, 0, 0, 0, 0]\<rparr>,
      r_bus_id = 0, r_ret_val = 0, r_addr = 0, r_flags = 0, r_len = 0,
      r_buf = [0, 0, 0, 0, 0, 0, 0, 0, 0, 0, 0, 0, 0, 0, 0, 0]\<rparr>"



text \<open>
  \<open>sizeof(struct i2c_rpmsg_msg)\<close>: the struct is packed, a header of 10 bytes, then
  1 + 1 + 2 + 2 + 2 + 16 bytes.
\<close>

definition sizeof_i2c_rpmsg_msg :: int where "sizeof_i2c_rpmsg_msg = 34"

text \<open>
  The outcome of \<open>rpmsg_xfer\<close> on frame \<open>rmsg\<close> once the completion is re-armed, in
  closed form (\<open>rearmed_xfer\<close> below proves it from the code): the result and the state.
\<close>

definition exchange ::
  "chan \<Rightarrow> i2c_rpmsg_msg \<Rightarrow> world \<Rightarrow> int \<times> world" where
  "exchange ch rmsg w =
     (let step = ch (length (sent w));
          acc = accepted w (replies step);
          rx = written (replies step) (rxbuf w);
          w1 = w\<lparr>i2c_rpmsg := reinit_completion (i2c_rpmsg w), sent := sent w @ [rmsg]\<rparr>
      in if send_ret step < 0 then (send_ret step, w1)
         else if acc = [] then (- ETIMEDOUT, w1\<lparr>rxbuf := rx\<rparr>)
         else (- int (unat (r_ret_val (rx (fst (last acc))))),
               w1\<lparr>rxbuf := rx,
                   i2c_rpmsg := (i2c_rpmsg w)\<lparr>i_msg := Some (fst (last acc)),
                      i_cmd_complete := length acc - 1\<rparr>\<rparr>))"

text \<open>The frame pass \<open>i\<close> of the loop builds for message \<open>pmsg\<close>, by direction.\<close>

definition iter_frame :: "int \<Rightarrow> bool \<Rightarrow> i2c_msg \<Rightarrow> world \<Rightarrow> i2c_rpmsg_msg" where
  "iter_frame nr il pmsg w =
     (if m_flags pmsg AND I2C_M_RD \<noteq> 0
      then request_frame I2C_RPMSG_COMMAND_READ pmsg nr il
      else write_copy 0 (mem w (m_buf pmsg)) (request_frame I2C_RPMSG_COMMAND_WRITE pmsg nr il))"

text \<open>
  Frame \<open>f\<close> is the request for message \<open>j\<close> of \<open>msgs\<close>: its address, length and
  command, and its flags with the STOP bit added for the last message only.
\<close>

definition frame_of :: "i2c_msg list \<Rightarrow> nat \<Rightarrow> i2c_rpmsg_msg \<Rightarrow> bool" where
  "frame_of msgs j f =
     (r_flags f = (if j = length msgs - 1 then m_flags (msgs ! j) OR I2C_RPMSG_M_STOP
                   else m_flags (msgs ! j)) \<and>
      r_addr f = m_addr (msgs ! j) \<and>
      r_len f = m_len (msgs ! j) \<and>
      h_cmd (r_header f) = (if m_flags (msgs ! j) AND I2C_M_RD \<noteq> 0
                            then I2C_RPMSG_COMMAND_READ else I2C_RPMSG_COMMAND_WRITE))"

text \<open>
  Two states that agree on all a transfer depends on: whether the channel is bound,
  the frames sent and the caller buffers. They may differ in the stored pointer, the
  counter of the completion, the expected bus and address and the receive buffers.
\<close>

definition same_outside :: "world \<Rightarrow> world \<Rightarrow> bool" where
  "same_outside w w' =
     (i_rpdev (i2c_rpmsg w) = i_rpdev (i2c_rpmsg w') \<and> sent w = sent w' \<and> mem w = mem w')"

text \<open>
  Result and caller buffers of one call of \<open>i2c_rpmsg_read\<close> (\<open>rd\<close>) or
  \<open>i2c_rpmsg_write\<close> in state \<open>w\<close>, from the answer the exchange reads, in closed form
  (\<open>read_outcome\<close> and \<open>write_outcome\<close> below prove it from the code).
\<close>

definition rw_outcome :: "bool \<Rightarrow> chan_step \<Rightarrow> i2c_msg \<Rightarrow> world \<Rightarrow> int \<times> (nat \<Rightarrow> u8 list)" where
  "rw_outcome rd step pmsg w =
     (if \<not> i_rpdev (i2c_rpmsg w) \<or> I2C_RPMSG_MAX_BUF_SIZE < unat (m_len pmsg)
      then (- EINVAL, mem w)
      else if send_ret step < 0 then (send_ret step, mem w)
      else (case answer (replies step) w of
              None \<Rightarrow> (- ETIMEDOUT, mem w)
            | Some f \<Rightarrow>
                if r_ret_val f \<noteq> 0 then (- int (unat (r_ret_val f)), mem w)
                else if \<not> rd then (0, mem w)
                else if r_len f \<noteq> m_len pmsg then (- EPROTO, mem w)
                else (int (unat (m_len pmsg)),
                      (mem w)(m_buf pmsg :=
                         memcpy (mem w (m_buf pmsg)) (r_buf f) (unat (m_len pmsg))))))"

subsection \<open>Example data\<close>

text \<open>
  A response frame of the remote core with bus \<open>bus\<close>, address \<open>a\<close>, return value
  \<open>rv\<close>, length \<open>n\<close> and payload \<open>bs\<close>; the receive buffers when none was ever
  written, and when only the one at address 0 was, last with frame \<open>f\<close>; a state right
  after the probe,
  with a caller buffer of one byte at address 0 and one of two bytes at address 1;
  and the channel that accepts every frame and never answers.
\<close>

definition response_frame :: "u8 \<Rightarrow> u16 \<Rightarrow> u8 \<Rightarrow> u16 \<Rightarrow> u8 list \<Rightarrow> i2c_rpmsg_msg" where
  "response_frame bus a rv n bs =
     \<lparr>r_header = \<lparr>h_cate = I2C_RPMSG_CATEGORY, h_major = 1, h_minor = 0,
                   h_type = I2C_RPMSG_TYPE_RESPONSE, h_cmd = 0, h_reserved = [1, 0, 0, 0, 0]\<rparr>,
      r_bus_id = bus, r_ret_val = rv, r_addr = a, r_flags = 0, r_len = n, r_buf = bs\<rparr>"

definition no_rx :: "nat \<Rightarrow> i2c_rpmsg_msg" where
  "no_rx = (\<lambda>a. no_frame)"

definition rx0 :: "i2c_rpmsg_msg \<Rightarrow> nat \<Rightarrow> i2c_rpmsg_msg" where
  "rx0 f = no_rx(0 := f)"

definition world0 :: world where
  "world0 = \<lparr>i2c_rpmsg = probed, sent = [], mem = (\<lambda>a. [])(0 := [0xAA], 1 := [0, 0]),
             rxbuf = no_rx\<rparr>"

definition silent :: chan where
  "silent = (\<lambda>n. \<lparr>send_ret = 0, replies = []\<rparr>)"

text \<open>
  A write of the byte at address 0 and a read of two bytes into the buffer at address
  1, both to device 0x50; the request frame the driver builds for them on bus 1 with
  command \<open>cmd\<close>, flags \<open>fl\<close>, length \<open>n\<close> and payload \<open>bs\<close>; and the state after an
  exchange on bus 1 with device 0x50: the stored pointer \<open>p\<close>, the frames sent \<open>fs\<close>,
  the content \<open>bs\<close> of the caller buffer at address 1 and the receive buffers \<open>rx\<close>.
\<close>

definition wr_msg :: i2c_msg where
  "wr_msg = \<lparr>m_addr = 0x50, m_flags = 0, m_len = 1, m_buf = 0\<rparr>"

definition rd_msg :: i2c_msg where
  "rd_msg = \<lparr>m_addr = 0x50, m_flags = 1, m_len = 2, m_buf = 1\<rparr>"

definition request :: "u8 \<Rightarrow> u16 \<Rightarrow> u16 \<Rightarrow> u8 list \<Rightarrow> i2c_rpmsg_msg" where
  "request cmd fl n bs =
     \<lparr>r_header = \<lparr>h_cate = 9, h_major = 1, h_minor = 0, h_type = 0, h_cmd = cmd,
                   h_reserved = [1, 0, 0, 0, 0]\<rparr>,
      r_bus_id = 1, r_ret_val = 0, r_addr = 0x50, r_flags = fl, r_len = n,
      r_buf = bs @ replicate (16 - length bs) 0\<rparr>"

definition after ::
  "nat option \<Rightarrow> i2c_rpmsg_msg list \<Rightarrow> u8 list \<Rightarrow> (nat \<Rightarrow> i2c_rpmsg_msg) \<Rightarrow> world" where
  "after p fs bs rx =
     \<lparr>i2c_rpmsg = \<lparr>i_rpdev = True, i_msg = p, i_cmd_complete = 0, i_bus_id = 1, i_addr = 0x50\<rparr>,
      sent = fs, mem = (\<lambda>a. [])(0 := [0xAA], 1 := bs), rxbuf = rx\<rparr>"

text \<open>
  The state after a read of device 0x50 on bus 1, the only message of its transfer,
  timed out; and a write to another device, 0x51.
\<close>

definition timed_out :: world where
  "timed_out = after None [request 0 0x201 2 []] [0, 0] no_rx"

definition wr_other :: i2c_msg where
  "wr_other = \<lparr>m_addr = 0x51, m_flags = 0, m_len = 1, m_buf = 0\<rparr>"

text \<open>
  The state after a write to device 0x51 on bus 1, the only message of its transfer,
  timed out.
\<close>

definition timed_out_other :: world where
  "timed_out_other =
     \<lparr>i2c_rpmsg = \<lparr>i_rpdev = True, i_msg = None, i_cmd_complete = 0, i_bus_id = 1, i_addr = 0x51\<rparr>,
      sent = [(request 1 0x200 1 [0xAA])\<lparr>r_addr := 0x51\<rparr>],
      mem = (\<lambda>a. [])(0 := [0xAA], 1 := [0, 0]), rxbuf = no_rx\<rparr>"

text \<open>
  Channels: one that answers the write and then the read as asked; one whose peer
  answers every frame with return value 10 (peer not ready); one that answers a read
  of two bytes with one byte; one that lets the first exchange time out and delivers
  the answer to it during the second; one whose \<open>rpmsg_send\<close> fails with \<open>-ENOMEM\<close>
  (-12). These deliver into the receive buffer at address 0. The last two let the
  first exchange time out and deliver in the wait of the second its answer, with
  return value 0, into the buffer at address 0 and then, before the waiter has run,
  the answer of device 0x51 to the first one, with return value 9: \<open>elsewhere\<close> into
  the buffer at address 1, \<open>overwriting\<close> into the buffer at address 0 again.
\<close>

definition answering :: chan where
  "answering = (\<lambda>n. if n = 0
      then \<lparr>send_ret = 0, replies = [(0, response_frame 1 0x50 0 1 [], 34)]\<rparr>
      else \<lparr>send_ret = 0, replies = [(0, response_frame 1 0x50 0 2 [0xDE, 0xAD], 34)]\<rparr>)"

definition not_ready :: chan where
  "not_ready = (\<lambda>n. \<lparr>send_ret = 0, replies = [(0, response_frame 1 0x50 10 0 [], 34)]\<rparr>)"


definition late :: chan where
  "late = (\<lambda>n. if n = 0 then \<lparr>send_ret = 0, replies = []\<rparr>
      else \<lparr>send_ret = 0, replies = [(0, response_frame 1 0x50 0 2 [0xDE, 0xAD], 34)]\<rparr>)"

definition rejecting :: chan where
  "rejecting = (\<lambda>n. \<lparr>send_ret = - 12, replies = []\<rparr>)"

definition elsewhere :: chan where
  "elsewhere = (\<lambda>n. if n = 0 then \<lparr>send_ret = 0, replies = []\<rparr>
      else \<lparr>send_ret = 0,
            replies = [(0, response_frame 1 0x50 0 1 [], 34),
                       (1, response_frame 1 0x51 9 0 [], 34)]\<rparr>)"

definition overwriting :: chan where
  "overwriting = (\<lambda>n. if n = 0 then \<lparr>send_ret = 0, replies = []\<rparr>
      else \<lparr>send_ret = 0,
            replies = [(0, response_frame 1 0x50 0 1 [], 34),
                       (0, response_frame 1 0x51 9 0 [], 34)]\<rparr>)"



section \<open>Properties\<close>

subsection \<open>The callback and the deliveries of a window\<close>

lemma cb_cases:
  "i2c_rpmsg_cb a n w =
     (if fst (i2c_rpmsg_cb a n w) = 0
      then (0, w\<lparr>i2c_rpmsg := (i2c_rpmsg w)\<lparr>i_msg := Some a,
                     i_cmd_complete := Suc (i_cmd_complete (i2c_rpmsg w))\<rparr>\<rparr>)
      else (- EINVAL, w))"
  by (simp add: i2c_rpmsg_cb_def complete_def EINVAL_def)

lemma takes_iff:
  "takes w d \<longleftrightarrow>
     h_type (r_header (fst (snd d))) = I2C_RPMSG_TYPE_RESPONSE \<and>
     r_bus_id (fst (snd d)) = i_bus_id (i2c_rpmsg w) \<and>
     r_addr (fst (snd d)) = i_addr (i2c_rpmsg w) \<and>
     unat (r_len (fst (snd d))) \<le> I2C_RPMSG_MAX_BUF_SIZE"
  by (auto simp: takes_def i2c_rpmsg_cb_def EINVAL_def)

lemma takes_cong:
  "i_bus_id (i2c_rpmsg w) = i_bus_id (i2c_rpmsg w') \<Longrightarrow>
   i_addr (i2c_rpmsg w) = i_addr (i2c_rpmsg w') \<Longrightarrow> takes w = takes w'"
  by (rule ext) (simp add: takes_iff)

lemma accepted_cong:
  "i_bus_id (i2c_rpmsg w) = i_bus_id (i2c_rpmsg w') \<Longrightarrow>
   i_addr (i2c_rpmsg w) = i_addr (i2c_rpmsg w') \<Longrightarrow> accepted w ds = accepted w' ds"
  by (simp add: accepted_def takes_cong [of w w'])

lemma accepted_rearmed [simp]:
  "accepted (w\<lparr>i2c_rpmsg := reinit_completion (i2c_rpmsg w)\<rparr>) ds = accepted w ds"
  by (rule accepted_cong) (simp_all add: reinit_completion_def)

lemma accepted_upd [simp]:
  "accepted (w\<lparr>sent := s\<rparr>) ds = accepted w ds"
  "accepted (w\<lparr>mem := m\<rparr>) ds = accepted w ds"
  "accepted (w\<lparr>rxbuf := rx\<rparr>) ds = accepted w ds"
  "accepted (w\<lparr>i2c_rpmsg := (i2c_rpmsg w)\<lparr>i_cmd_complete := c\<rparr>\<rparr>) ds = accepted w ds"
  "accepted (w\<lparr>i2c_rpmsg := (i2c_rpmsg w)\<lparr>i_msg := p\<rparr>\<rparr>) ds = accepted w ds"
  by (rule accepted_cong, simp, simp)+

lemma accepted_expecting:
  "accepted (w\<lparr>i2c_rpmsg := expecting nr pmsg (i2c_rpmsg w)\<rparr>) ds =
   accepted (w'\<lparr>i2c_rpmsg := expecting nr pmsg g\<rparr>) ds"
  by (rule accepted_cong) (simp_all add: expecting_def)

lemma deliver_append: "deliver (ds @ es) w = deliver es (deliver ds w)"
  by (induction ds arbitrary: w) simp_all

lemma written_append: "written (ds @ es) rx = written es (written ds rx)"
  by (induction ds arbitrary: rx) simp_all

lemma deliver_one:
  "deliver [d] w =
     (if takes w d
      then w\<lparr>rxbuf := (rxbuf w)(fst d := fst (snd d)),
             i2c_rpmsg := (i2c_rpmsg w)\<lparr>i_msg := Some (fst d),
                i_cmd_complete := Suc (i_cmd_complete (i2c_rpmsg w))\<rparr>\<rparr>
      else w\<lparr>rxbuf := (rxbuf w)(fst d := fst (snd d))\<rparr>)"
  by (auto simp: takes_def i2c_rpmsg_cb_def complete_def EINVAL_def)

lemma deliver_eq:
  "deliver ds w =
     w\<lparr>rxbuf := written ds (rxbuf w),
        i2c_rpmsg :=
          (if accepted w ds = [] then i2c_rpmsg w
           else (i2c_rpmsg w)\<lparr>i_msg := Some (fst (last (accepted w ds))),
                   i_cmd_complete := i_cmd_complete (i2c_rpmsg w) + length (accepted w ds)\<rparr>)\<rparr>"
proof (induction ds rule: rev_induct)
  case Nil
  show ?case by (simp add: accepted_def)
next
  case (snoc d ds)
  let ?w1 = "deliver ds w"
  have same: "takes ?w1 d = takes w d"
    by (subst snoc.IH) (simp add: takes_iff)
  have step: "deliver (ds @ [d]) w = deliver [d] ?w1"
    by (simp only: deliver_append)
  have acc: "accepted w (ds @ [d]) = accepted w ds @ (if takes w d then [d] else [])"
    by (simp add: accepted_def)
  have wr: "written (ds @ [d]) (rxbuf w) = (written ds (rxbuf w))(fst d := fst (snd d))"
    by (simp add: written_append)
  have rx1: "rxbuf ?w1 = written ds (rxbuf w)"
    by (subst snoc.IH) simp
  have g1: "i2c_rpmsg ?w1 =
      (if accepted w ds = [] then i2c_rpmsg w
       else (i2c_rpmsg w)\<lparr>i_msg := Some (fst (last (accepted w ds))),
               i_cmd_complete := i_cmd_complete (i2c_rpmsg w) + length (accepted w ds)\<rparr>)"
    by (subst snoc.IH) simp
  have rest: "sent ?w1 = sent w" "mem ?w1 = mem w"
    by (subst snoc.IH, simp)+
  show ?case
    unfolding step deliver_one same acc wr
    by (rule world.equality) (simp_all add: rx1 g1 rest fun_upd_def)
qed

lemma written_at:
  "a \<in> fst ` set ds \<Longrightarrow> written ds rx a = written ds rx' a"
proof (induction ds arbitrary: rx rx' rule: rev_induct)
  case Nil
  then show ?case by simp
next
  case (snoc d ds)
  then show ?case by (cases "a = fst d") (auto simp: written_append)
qed

lemma written_other:
  "a \<notin> fst ` set ds \<Longrightarrow> written ds rx a = rx a"
  by (induction ds arbitrary: rx) auto

lemma last_accepted_in:
  "accepted w ds \<noteq> [] \<Longrightarrow> fst (last (accepted w ds)) \<in> fst ` set ds"
proof -
  assume "accepted w ds \<noteq> []"
  then have "last (accepted w ds) \<in> set (accepted w ds)" by (rule last_in_set)
  then have "last (accepted w ds) \<in> set ds" by (simp add: accepted_def)
  then show ?thesis by (rule imageI)
qed

lemma answer_eq:
  "answer ds w =
     (if accepted w ds = [] then None
      else Some (written ds (rxbuf w) (fst (last (accepted w ds)))))"
  by (simp add: answer_def Let_def deliver_eq reinit_completion_def)

lemma answer_cong:
  assumes "i_bus_id (i2c_rpmsg w) = i_bus_id (i2c_rpmsg w')"
    and "i_addr (i2c_rpmsg w) = i_addr (i2c_rpmsg w')"
  shows "answer ds w = answer ds w'"
proof -
  have acc: "accepted w ds = accepted w' ds" using assms by (rule accepted_cong)
  show ?thesis
    unfolding answer_eq acc
    using last_accepted_in [of w' ds] written_at [of _ ds "rxbuf w" "rxbuf w'"] by auto
qed


subsection \<open>One exchange\<close>

lemma rpmsg_xfer_eq:
  assumes "i_cmd_complete (i2c_rpmsg w) = 0"
  shows "rpmsg_xfer ch rmsg w =
     (let step = ch (length (sent w));
          acc = accepted w (replies step);
          rx = written (replies step) (rxbuf w);
          w1 = w\<lparr>sent := sent w @ [rmsg]\<rparr>
      in if send_ret step < 0 then Some (send_ret step, w1)
         else if acc = [] then Some (- ETIMEDOUT, w1\<lparr>rxbuf := rx\<rparr>)
         else Some (- int (unat (r_ret_val (rx (fst (last acc))))),
                    w1\<lparr>rxbuf := rx,
                        i2c_rpmsg := (i2c_rpmsg w)\<lparr>i_msg := Some (fst (last acc)),
                           i_cmd_complete := length acc - 1\<rparr>\<rparr>))"
  using assms
  by (simp add: rpmsg_xfer_def rpmsg_send_def wait_for_completion_timeout_def deliver_eq Let_def)

lemma rearmed_xfer:
  "rpmsg_xfer ch rmsg (w\<lparr>i2c_rpmsg := reinit_completion (i2c_rpmsg w)\<rparr>) = Some (exchange ch rmsg w)"
  by (subst rpmsg_xfer_eq) (simp_all add: reinit_completion_def exchange_def Let_def)

lemma i2c_rpmsg_write_eq:
  "i2c_rpmsg_write ch pmsg w bus il =
     (if \<not> i_rpdev (i2c_rpmsg w) \<or> I2C_RPMSG_MAX_BUF_SIZE < unat (m_len pmsg)
      then Some (- EINVAL, w)
      else Some (exchange ch (write_copy 0 (mem w (m_buf pmsg))
              (request_frame I2C_RPMSG_COMMAND_WRITE pmsg bus il)) w))"
  by (simp add: i2c_rpmsg_write_def rearmed_xfer Let_def split: prod.split)

lemma exchange_mem [simp]: "mem (snd (exchange ch rmsg w)) = mem w"
  by (simp add: exchange_def Let_def)

lemma exchange_rpdev [simp]: "i_rpdev (i2c_rpmsg (snd (exchange ch rmsg w))) = i_rpdev (i2c_rpmsg w)"
  by (simp add: exchange_def Let_def reinit_completion_def)

lemma exchange_sent [simp]: "sent (snd (exchange ch rmsg w)) = sent w @ [rmsg]"
  by (simp add: exchange_def Let_def)

lemma exchange_le0: "fst (exchange ch rmsg w) \<noteq> 0 \<Longrightarrow> fst (exchange ch rmsg w) < 0"
  by (auto simp: exchange_def Let_def ETIMEDOUT_def order_less_le split: if_splits)

lemma i2c_rpmsg_read_eq:
  "i2c_rpmsg_read ch pmsg w bus il =
     (if \<not> i_rpdev (i2c_rpmsg w) \<or> I2C_RPMSG_MAX_BUF_SIZE < unat (m_len pmsg)
      then Some (- EINVAL, w)
      else
        let (ret, w2) = exchange ch (request_frame I2C_RPMSG_COMMAND_READ pmsg bus il) w
        in if ret \<noteq> 0 then Some (ret, w2)
           else (case i_msg (i2c_rpmsg w2) of
                   None \<Rightarrow> Some (- EPROTO, w2)
                 | Some p \<Rightarrow>
                     if r_len (rxbuf w2 p) \<noteq> m_len pmsg then Some (- EPROTO, w2)
                     else Some (int (unat (m_len pmsg)),
                            w2\<lparr>mem := (mem w2)(m_buf pmsg :=
                                  memcpy (mem w2 (m_buf pmsg)) (r_buf (rxbuf w2 p))
                                    (unat (r_len (rxbuf w2 p))))\<rparr>)))"
  by (simp add: i2c_rpmsg_read_def rearmed_xfer Let_def split: prod.split)

text \<open>The exchange in terms of the answer it reads.\<close>

lemma exchange_answer:
  assumes "0 \<le> send_ret (ch (length (sent w)))"
  shows "fst (exchange ch rmsg w) =
           (case answer (replies (ch (length (sent w)))) w of
              None \<Rightarrow> - ETIMEDOUT
            | Some f \<Rightarrow> - int (unat (r_ret_val f)))"
    and "answer (replies (ch (length (sent w)))) w = Some f \<Longrightarrow>
           \<exists>p. i_msg (i2c_rpmsg (snd (exchange ch rmsg w))) = Some p \<and>
               rxbuf (snd (exchange ch rmsg w)) p = f"
  using assms by (auto simp: exchange_def Let_def answer_eq split: if_splits)

subsection \<open>Read, write and one pass of the loop\<close>

declare write_copy.simps [simp del]
declare i2c_rpbus_xfer_loop.simps [simp del]

lemma write_copy_keeps:
  "r_header (write_copy i src rmsg) = r_header rmsg \<and>
   r_bus_id (write_copy i src rmsg) = r_bus_id rmsg \<and>
   r_ret_val (write_copy i src rmsg) = r_ret_val rmsg \<and>
   r_addr (write_copy i src rmsg) = r_addr rmsg \<and>
   r_flags (write_copy i src rmsg) = r_flags rmsg \<and>
   r_len (write_copy i src rmsg) = r_len rmsg"
proof (induction i src rmsg rule: write_copy.induct)
  case (1 i src rmsg)
  show ?case
  proof (cases "i < unat (r_len rmsg)")
    case True
    with "1.IH" show ?thesis by (subst (1 2 3 4 5 6) write_copy.simps) simp
  next
    case False
    then show ?thesis by (subst (1 2 3 4 5 6) write_copy.simps) simp
  qed
qed

lemma iter_frame_fields:
  "r_flags (iter_frame nr il pmsg w) = (if il then m_flags pmsg OR I2C_RPMSG_M_STOP else m_flags pmsg)"
  "r_addr (iter_frame nr il pmsg w) = m_addr pmsg"
  "r_len (iter_frame nr il pmsg w) = m_len pmsg"
  "r_bus_id (iter_frame nr il pmsg w) = word_of_int nr"
  "h_cmd (r_header (iter_frame nr il pmsg w)) =
     (if m_flags pmsg AND I2C_M_RD \<noteq> 0 then I2C_RPMSG_COMMAND_READ else I2C_RPMSG_COMMAND_WRITE)"
  "h_type (r_header (iter_frame nr il pmsg w)) = I2C_RPMSG_TYPE_REQUEST"
  by (simp_all add: iter_frame_def write_copy_keeps request_frame_def)

lemma iter_eq:
  "i2c_rpbus_xfer_iter ch nr num i il msgs w =
     (let il1 = (i = num - 1 \<or> il);
          pmsg = msgs ! i;
          w1 = w\<lparr>i2c_rpmsg := expecting nr pmsg (i2c_rpmsg w)\<rparr>;
          x = exchange ch (iter_frame nr il1 pmsg w) w1
      in if \<not> i_rpdev (i2c_rpmsg w) \<or> I2C_RPMSG_MAX_BUF_SIZE < unat (m_len pmsg)
         then Some (- EINVAL, il1, msgs, w1)
         else if m_flags pmsg AND I2C_M_RD = 0 \<or> fst x \<noteq> 0
         then Some (fst x, il1, msgs, snd x)
         else (case i_msg (i2c_rpmsg (snd x)) of
                 None \<Rightarrow> Some (- EPROTO, il1, msgs, snd x)
               | Some p \<Rightarrow>
                   if r_len (rxbuf (snd x) p) \<noteq> m_len pmsg then Some (- EPROTO, il1, msgs, snd x)
                   else Some (int (unat (m_len pmsg)), il1, msgs,
                          (snd x)\<lparr>mem := (mem w)(m_buf pmsg :=
                                  memcpy (mem w (m_buf pmsg)) (r_buf (rxbuf (snd x) p)) (unat (m_len pmsg)))\<rparr>)))"
proof -
  define il1 where "il1 = (if i = num - 1 then True else il)"
  define pmsg where "pmsg = msgs ! i"
  define w1 where "w1 = w\<lparr>i2c_rpmsg := expecting nr pmsg (i2c_rpmsg w)\<rparr>"
  define x where "x = exchange ch (iter_frame nr il1 pmsg w) w1"
  have il1: "il1 = (i = num - 1 \<or> il)" by (simp add: il1_def)
  have rd: "i_rpdev (i2c_rpmsg w1) = i_rpdev (i2c_rpmsg w)"
    by (simp add: w1_def expecting_def)
  have m1: "mem w1 = mem w" by (simp add: w1_def)
  have mx: "mem (snd x) = mem w" by (simp add: x_def m1)
  have same: "msgs[i := pmsg] = msgs"
    by (simp add: pmsg_def)
  have unfold: "i2c_rpbus_xfer_iter ch nr num i il msgs w =
      (if m_flags pmsg AND I2C_M_RD \<noteq> 0 then
         (case i2c_rpmsg_read ch pmsg w1 nr il1 of
            None \<Rightarrow> None
          | Some (ret, w2) \<Rightarrow>
              if ret < 0 then Some (ret, il1, msgs, w2)
              else Some (ret, il1, msgs[i := pmsg\<lparr>m_len := word_of_int ret\<rparr>], w2))
       else
         (case i2c_rpmsg_write ch pmsg w1 nr il1 of
            None \<Rightarrow> None
          | Some (ret, w2) \<Rightarrow> Some (ret, il1, msgs, w2)))"
    unfolding i2c_rpbus_xfer_iter_def Let_def il1_def pmsg_def w1_def by (rule refl)
  have goal: "i2c_rpbus_xfer_iter ch nr num i il msgs w =
      (if \<not> i_rpdev (i2c_rpmsg w) \<or> I2C_RPMSG_MAX_BUF_SIZE < unat (m_len pmsg)
         then Some (- EINVAL, il1, msgs, w1)
         else if m_flags pmsg AND I2C_M_RD = 0 \<or> fst x \<noteq> 0
         then Some (fst x, il1, msgs, snd x)
         else (case i_msg (i2c_rpmsg (snd x)) of
                 None \<Rightarrow> Some (- EPROTO, il1, msgs, snd x)
               | Some p \<Rightarrow>
                   if r_len (rxbuf (snd x) p) \<noteq> m_len pmsg then Some (- EPROTO, il1, msgs, snd x)
                   else Some (int (unat (m_len pmsg)), il1, msgs,
                          (snd x)\<lparr>mem := (mem w)(m_buf pmsg :=
                                  memcpy (mem w (m_buf pmsg)) (r_buf (rxbuf (snd x) p)) (unat (m_len pmsg)))\<rparr>)))"
  proof (cases "\<not> i_rpdev (i2c_rpmsg w) \<or> I2C_RPMSG_MAX_BUF_SIZE < unat (m_len pmsg)")
    case True
    then show ?thesis
      unfolding unfold by (auto simp: i2c_rpmsg_read_eq i2c_rpmsg_write_eq rd EINVAL_def)
  next
    case ok: False
    show ?thesis
    proof (cases "m_flags pmsg AND I2C_M_RD = 0")
      case True
      with ok show ?thesis
        unfolding unfold by (simp add: i2c_rpmsg_write_eq rd x_def iter_frame_def m1 split_beta)
    next
      case rdmsg: False
      then have xr: "exchange ch (request_frame I2C_RPMSG_COMMAND_READ pmsg nr il1) w1 = x"
        by (simp add: x_def iter_frame_def)
      show ?thesis
      proof (cases "fst x = 0")
        case False
        then have "fst x < 0" unfolding x_def by (rule exchange_le0)
        with False ok rdmsg show ?thesis
          unfolding unfold by (simp add: i2c_rpmsg_read_eq rd xr split_beta)
      next
        case True
        with ok rdmsg show ?thesis
          unfolding unfold
          by (simp add: i2c_rpmsg_read_eq rd xr split_beta mx same EPROTO_def split: option.split)
      qed
    qed
  qed
  show ?thesis
    unfolding goal Let_def x_def w1_def pmsg_def il1 by (rule refl)
qed

subsection \<open>The loop\<close>

lemma iter_props:
  obtains ret w1 where
    "i2c_rpbus_xfer_iter ch nr num i il msgs w = Some (ret, (i = num - 1 \<or> il), msgs, w1)"
    "i_rpdev (i2c_rpmsg w1) = i_rpdev (i2c_rpmsg w)"
    "sent w1 = sent w \<or> sent w1 = sent w @ [iter_frame nr (i = num - 1 \<or> il) (msgs ! i) w]"
    "0 \<le> ret \<Longrightarrow> sent w1 = sent w @ [iter_frame nr (i = num - 1 \<or> il) (msgs ! i) w]"
    "\<And>a. mem w1 a \<noteq> mem w a \<Longrightarrow> m_flags (msgs ! i) AND I2C_M_RD \<noteq> 0 \<and> a = m_buf (msgs ! i) \<and> 0 \<le> ret"
proof -
  define il1 where "il1 = (i = num - 1 \<or> il)"
  define pmsg where "pmsg = msgs ! i"
  define w1 where "w1 = w\<lparr>i2c_rpmsg := expecting nr pmsg (i2c_rpmsg w)\<rparr>"
  define x where "x = exchange ch (iter_frame nr il1 pmsg w) w1"
  have e: "i2c_rpbus_xfer_iter ch nr num i il msgs w =
      (if \<not> i_rpdev (i2c_rpmsg w) \<or> I2C_RPMSG_MAX_BUF_SIZE < unat (m_len pmsg)
         then Some (- EINVAL, il1, msgs, w1)
         else if m_flags pmsg AND I2C_M_RD = 0 \<or> fst x \<noteq> 0
         then Some (fst x, il1, msgs, snd x)
         else (case i_msg (i2c_rpmsg (snd x)) of
                 None \<Rightarrow> Some (- EPROTO, il1, msgs, snd x)
               | Some p \<Rightarrow>
                   if r_len (rxbuf (snd x) p) \<noteq> m_len pmsg then Some (- EPROTO, il1, msgs, snd x)
                   else Some (int (unat (m_len pmsg)), il1, msgs,
                          (snd x)\<lparr>mem := (mem w)(m_buf pmsg :=
                                  memcpy (mem w (m_buf pmsg)) (r_buf (rxbuf (snd x) p)) (unat (m_len pmsg)))\<rparr>)))"
    unfolding iter_eq [of ch nr num i il msgs w] Let_def x_def w1_def pmsg_def il1_def by (rule refl)
  have s1: "sent w1 = sent w" and m1: "mem w1 = mem w"
    and r1: "i_rpdev (i2c_rpmsg w1) = i_rpdev (i2c_rpmsg w)"
    by (simp_all add: w1_def expecting_def)
  have sx: "sent (snd x) = sent w @ [iter_frame nr il1 pmsg w]"
    and mx: "mem (snd x) = mem w"
    and rx: "i_rpdev (i2c_rpmsg (snd x)) = i_rpdev (i2c_rpmsg w)"
    by (simp_all add: x_def s1 m1 r1)
  have neg: "fst x \<noteq> 0 \<Longrightarrow> fst x < 0"
    unfolding x_def by (rule exchange_le0)
  show thesis
  proof (cases "\<not> i_rpdev (i2c_rpmsg w) \<or> I2C_RPMSG_MAX_BUF_SIZE < unat (m_len pmsg)")
    case True
    show ?thesis
      by (rule that [of "- EINVAL" w1])
        (use True in \<open>simp_all add: e il1_def s1 m1 r1 EINVAL_def\<close>)
  next
    case ok: False
    show ?thesis
    proof (cases "m_flags pmsg AND I2C_M_RD = 0 \<or> fst x \<noteq> 0")
      case True
      show ?thesis
        by (rule that [of "fst x" "snd x"])
          (use ok True neg in \<open>auto simp: e il1_def pmsg_def sx mx rx\<close>)
    next
      case rd: False
      show ?thesis
      proof (cases "i_msg (i2c_rpmsg (snd x))")
        case None
        show ?thesis
          by (rule that [of "- EPROTO" "snd x"])
            (use ok rd None in \<open>auto simp: e il1_def pmsg_def sx mx rx EPROTO_def\<close>)
      next
        case (Some p)
        show ?thesis
        proof (cases "r_len (rxbuf (snd x) p) \<noteq> m_len pmsg")
          case True
          show ?thesis
            by (rule that [of "- EPROTO" "snd x"])
              (use ok rd Some True in \<open>auto simp: e il1_def pmsg_def sx mx rx EPROTO_def\<close>)
        next
          case False
          show ?thesis
            by (rule that [of "int (unat (m_len pmsg))"
                  "(snd x)\<lparr>mem := (mem w)(m_buf pmsg :=
                       memcpy (mem w (m_buf pmsg)) (r_buf (rxbuf (snd x) p)) (unat (m_len pmsg)))\<rparr>"])
              (use ok rd Some False in \<open>auto simp: e il1_def pmsg_def sx mx rx split: if_splits\<close>)
        qed
      qed
    qed
  qed
qed

lemma state_Suc:
  "xfer_state ch nr msgs w (Suc k) = Some (il1, ms1, w1) \<longleftrightarrow>
     (\<exists>il ms wk ret. xfer_state ch nr msgs w k = Some (il, ms, wk) \<and>
        i2c_rpbus_xfer_iter ch nr (length msgs) k il ms wk = Some (ret, il1, ms1, w1) \<and> 0 \<le> ret)"
  by (auto split: option.splits if_splits)

lemma loop_state:
  "xfer_state ch nr msgs w k = Some (il, ms, wk) \<Longrightarrow> k \<le> length msgs \<Longrightarrow>
     i2c_rpbus_xfer ch nr msgs w = i2c_rpbus_xfer_loop ch nr (length msgs) k il ms wk"
proof (induction k arbitrary: il ms wk)
  case 0
  then show ?case by (simp add: i2c_rpbus_xfer_def)
next
  case (Suc k)
  from Suc.prems(1) obtain il0 ms0 w0 ret where
    st: "xfer_state ch nr msgs w k = Some (il0, ms0, w0)" and
    it: "i2c_rpbus_xfer_iter ch nr (length msgs) k il0 ms0 w0 = Some (ret, il, ms, wk)" and
    ok: "0 \<le> ret"
    unfolding state_Suc by blast
  have "i2c_rpbus_xfer ch nr msgs w = i2c_rpbus_xfer_loop ch nr (length msgs) k il0 ms0 w0"
    using Suc.IH [OF st] Suc.prems(2) by simp
  also have "\<dots> = i2c_rpbus_xfer_loop ch nr (length msgs) (Suc k) il ms wk"
    using Suc.prems(2) it ok by (subst i2c_rpbus_xfer_loop.simps) simp
  finally show ?case .
qed

lemma xfer_fail:
  assumes "xfer_state ch nr msgs w k = Some (il, ms, wk)" "k < length msgs"
    "i2c_rpbus_xfer_iter ch nr (length msgs) k il ms wk = Some (ret, il1, ms1, w1)" "ret < 0"
  shows "i2c_rpbus_xfer ch nr msgs w = Some (ret, ms1, w1)"
  using assms by (simp add: loop_state i2c_rpbus_xfer_loop.simps [of _ _ _ k])

lemma xfer_done:
  assumes "xfer_state ch nr msgs w (length msgs) = Some (il, ms, wk)"
  shows "i2c_rpbus_xfer ch nr msgs w = Some (int (length msgs), ms, wk)"
  using assms by (simp add: loop_state i2c_rpbus_xfer_loop.simps [of _ _ _ "length msgs"])

lemma state_or_fail:
  "k \<le> length msgs \<Longrightarrow>
     (\<exists>il wk. xfer_state ch nr msgs w k = Some (il, msgs, wk)) \<or>
     (\<exists>j il wj ret il1 w1. j < k \<and> xfer_state ch nr msgs w j = Some (il, msgs, wj) \<and>
        i2c_rpbus_xfer_iter ch nr (length msgs) j il msgs wj = Some (ret, il1, msgs, w1) \<and> ret < 0)"
proof (induction k)
  case 0
  have "xfer_state ch nr msgs w 0 = Some (False, msgs, w)" by simp
  then show ?case by blast
next
  case (Suc k)
  then have "k \<le> length msgs" by simp
  from Suc.IH [OF this] show ?case
  proof
    assume "\<exists>il wk. xfer_state ch nr msgs w k = Some (il, msgs, wk)"
    then obtain il wk where st: "xfer_state ch nr msgs w k = Some (il, msgs, wk)" by blast
    obtain ret w1 where
      it: "i2c_rpbus_xfer_iter ch nr (length msgs) k il msgs wk =
             Some (ret, (k = length msgs - 1 \<or> il), msgs, w1)"
      by (rule iter_props [of ch nr "length msgs" k il msgs wk])
    show ?thesis
    proof (cases "ret < 0")
      case True
      with st it show ?thesis by blast
    next
      case False
      with st it have "xfer_state ch nr msgs w (Suc k) = Some ((k = length msgs - 1 \<or> il), msgs, w1)"
        by simp
      then show ?thesis by blast
    qed
  next
    assume "\<exists>j il wj ret il1 w1. j < k \<and> xfer_state ch nr msgs w j = Some (il, msgs, wj) \<and>
        i2c_rpbus_xfer_iter ch nr (length msgs) j il msgs wj = Some (ret, il1, msgs, w1) \<and> ret < 0"
    then show ?thesis using less_Suc_eq by blast
  qed
qed

lemma frame_of_iter_frame:
  "k < length msgs \<Longrightarrow> frame_of msgs k (iter_frame nr (k = length msgs - 1) (msgs ! k) wk)"
  by (simp add: frame_of_def iter_frame_fields)

lemma state_inv:
  "xfer_state ch nr msgs w k = Some (il, ms, wk) \<Longrightarrow> k \<le> length msgs \<Longrightarrow>
     ms = msgs \<and> (il \<longrightarrow> k = length msgs) \<and>
     i_rpdev (i2c_rpmsg wk) = i_rpdev (i2c_rpmsg w) \<and>
     (\<exists>fs. sent wk = sent w @ fs \<and> length fs = k \<and> (\<forall>j<k. frame_of msgs j (fs ! j))) \<and>
     (\<forall>a. mem wk a \<noteq> mem w a \<longrightarrow>
          (\<exists>j<k. m_flags (msgs ! j) AND I2C_M_RD \<noteq> 0 \<and> a = m_buf (msgs ! j)))"
proof (induction k arbitrary: il ms wk)
  case 0
  then show ?case by simp
next
  case (Suc k)
  from Suc.prems(1) obtain il0 ms0 w0 ret where
    st: "xfer_state ch nr msgs w k = Some (il0, ms0, w0)" and
    it: "i2c_rpbus_xfer_iter ch nr (length msgs) k il0 ms0 w0 = Some (ret, il, ms, wk)" and
    ok: "0 \<le> ret"
    unfolding state_Suc by blast
  from Suc.prems(2) have k: "k < length msgs" by simp
  from Suc.IH [OF st] k have ms0: "ms0 = msgs" and il0: "\<not> il0"
    and rp0: "i_rpdev (i2c_rpmsg w0) = i_rpdev (i2c_rpmsg w)"
    and mem0: "\<And>a. mem w0 a \<noteq> mem w a \<Longrightarrow>
          (\<exists>j<k. m_flags (msgs ! j) AND I2C_M_RD \<noteq> 0 \<and> a = m_buf (msgs ! j))"
    by auto
  from Suc.IH [OF st] k obtain fs where
    fs: "sent w0 = sent w @ fs" "length fs = k" "\<forall>j<k. frame_of msgs j (fs ! j)"
    by auto
  obtain ret' w1 where
    p: "i2c_rpbus_xfer_iter ch nr (length msgs) k il0 msgs w0 =
          Some (ret', (k = length msgs - 1 \<or> il0), msgs, w1)"
      "i_rpdev (i2c_rpmsg w1) = i_rpdev (i2c_rpmsg w0)"
      "0 \<le> ret' \<Longrightarrow> sent w1 = sent w0 @ [iter_frame nr (k = length msgs - 1 \<or> il0) (msgs ! k) w0]"
      "\<And>a. mem w1 a \<noteq> mem w0 a \<Longrightarrow>
          m_flags (msgs ! k) AND I2C_M_RD \<noteq> 0 \<and> a = m_buf (msgs ! k) \<and> 0 \<le> ret'"
    by (rule iter_props [of ch nr "length msgs" k il0 msgs w0]) blast
  from it p(1) ms0 have eq: "ret' = ret" "il = (k = length msgs - 1 \<or> il0)" "ms = msgs" "w1 = wk"
    by auto
  have snt: "sent wk = sent w @ (fs @ [iter_frame nr (k = length msgs - 1) (msgs ! k) w0])"
    using p(3) ok eq il0 fs(1) by simp
  have frames: "\<forall>j<Suc k. frame_of msgs j
      ((fs @ [iter_frame nr (k = length msgs - 1) (msgs ! k) w0]) ! j)"
    using fs(2,3) frame_of_iter_frame [OF k] by (auto simp: nth_append less_Suc_eq)
  have memk: "\<forall>a. mem wk a \<noteq> mem w a \<longrightarrow>
          (\<exists>j<Suc k. m_flags (msgs ! j) AND I2C_M_RD \<noteq> 0 \<and> a = m_buf (msgs ! j))"
  proof (intro allI impI)
    fix a assume d: "mem wk a \<noteq> mem w a"
    show "\<exists>j<Suc k. m_flags (msgs ! j) AND I2C_M_RD \<noteq> 0 \<and> a = m_buf (msgs ! j)"
    proof (cases "mem wk a = mem w0 a")
      case True
      with d have "mem w0 a \<noteq> mem w a" by simp
      from mem0 [OF this] show ?thesis using less_Suc_eq by blast
    next
      case False
      with p(4) [of a] eq(4) show ?thesis by blast
    qed
  qed
  have "il \<longrightarrow> Suc k = length msgs" using eq(2) il0 k by auto
  moreover have "i_rpdev (i2c_rpmsg wk) = i_rpdev (i2c_rpmsg w)" using p(2) eq(4) rp0 by simp
  moreover have "\<exists>gs. sent wk = sent w @ gs \<and> length gs = Suc k \<and> (\<forall>j<Suc k. frame_of msgs j (gs ! j))"
    using snt frames fs(2) by (intro exI [of _ "fs @ [iter_frame nr (k = length msgs - 1) (msgs ! k) w0]"]) simp
  ultimately show ?case using eq(3) memk by blast
qed

subsection \<open>The whole transfer\<close>

lemma xfer_cases:
  obtains (complete_run) il wN where
      "xfer_state ch nr msgs w (length msgs) = Some (il, msgs, wN)"
      "i2c_rpbus_xfer ch nr msgs w = Some (int (length msgs), msgs, wN)"
  | (failed_at) k il wk ret il1 w1 where
      "k < length msgs" "xfer_state ch nr msgs w k = Some (il, msgs, wk)"
      "i2c_rpbus_xfer_iter ch nr (length msgs) k il msgs wk = Some (ret, il1, msgs, w1)"
      "ret < 0" "i2c_rpbus_xfer ch nr msgs w = Some (ret, msgs, w1)"
  using state_or_fail [of "length msgs" msgs ch nr w] xfer_done [of ch nr msgs w] xfer_fail [of ch nr msgs w]
  by (metis order_refl)

lemma exchange_cases:
  obtains (rejected) "send_ret (ch (length (sent w))) < 0"
      "fst (exchange ch rmsg w) = send_ret (ch (length (sent w)))"
  | (timeout) "0 \<le> send_ret (ch (length (sent w)))"
      "answer (replies (ch (length (sent w)))) w = None"
      "fst (exchange ch rmsg w) = - ETIMEDOUT"
  | (answered) f p where "0 \<le> send_ret (ch (length (sent w)))"
      "answer (replies (ch (length (sent w)))) w = Some f"
      "fst (exchange ch rmsg w) = - int (unat (r_ret_val f))"
      "i_msg (i2c_rpmsg (snd (exchange ch rmsg w))) = Some p"
      "rxbuf (snd (exchange ch rmsg w)) p = f"
proof (cases "send_ret (ch (length (sent w))) < 0")
  case True
  then show ?thesis by (intro rejected) (simp_all add: exchange_def Let_def)
next
  case False
  then have s: "0 \<le> send_ret (ch (length (sent w)))" by simp
  show ?thesis
  proof (cases "answer (replies (ch (length (sent w)))) w")
    case None
    with s show ?thesis by (intro timeout) (simp_all add: exchange_answer(1))
  next
    case (Some f)
    from exchange_answer(2) [of ch w f rmsg] s Some obtain p where
      "i_msg (i2c_rpmsg (snd (exchange ch rmsg w))) = Some p"
      "rxbuf (snd (exchange ch rmsg w)) p = f" by blast
    with s Some show ?thesis by (intro answered [of f p]) (simp_all add: exchange_answer(1))
  qed
qed

lemma write_outcome:
  "\<exists>w'. i2c_rpmsg_write ch pmsg w bus il =
          Some (fst (rw_outcome False (ch (length (sent w))) pmsg w), w') \<and>
        mem w' = snd (rw_outcome False (ch (length (sent w))) pmsg w)"
proof (cases "\<not> i_rpdev (i2c_rpmsg w) \<or> I2C_RPMSG_MAX_BUF_SIZE < unat (m_len pmsg)")
  case True
  then show ?thesis by (auto simp: i2c_rpmsg_write_eq rw_outcome_def)
next
  case ok: False
  let ?f = "write_copy 0 (mem w (m_buf pmsg)) (request_frame I2C_RPMSG_COMMAND_WRITE pmsg bus il)"
  have w: "i2c_rpmsg_write ch pmsg w bus il = Some (fst (exchange ch ?f w), snd (exchange ch ?f w))"
    using ok by (simp add: i2c_rpmsg_write_eq)
  show ?thesis
  proof (cases rule: exchange_cases [of ch w ?f])
    case rejected
    with ok show ?thesis unfolding w by (simp add: rw_outcome_def)
  next
    case timeout
    with ok show ?thesis unfolding w by (simp add: rw_outcome_def)
  next
    case (answered f p)
    with ok show ?thesis unfolding w by (simp add: rw_outcome_def)
  qed
qed

lemma read_outcome:
  "\<exists>w'. i2c_rpmsg_read ch pmsg w bus il =
          Some (fst (rw_outcome True (ch (length (sent w))) pmsg w), w') \<and>
        mem w' = snd (rw_outcome True (ch (length (sent w))) pmsg w)"
proof (cases "\<not> i_rpdev (i2c_rpmsg w) \<or> I2C_RPMSG_MAX_BUF_SIZE < unat (m_len pmsg)")
  case True
  then show ?thesis by (auto simp: i2c_rpmsg_read_eq rw_outcome_def)
next
  case ok: False
  let ?f = "request_frame I2C_RPMSG_COMMAND_READ pmsg bus il"
  let ?x = "exchange ch ?f w"
  have r: "i2c_rpmsg_read ch pmsg w bus il =
      (if fst ?x \<noteq> 0 then Some (fst ?x, snd ?x)
       else (case i_msg (i2c_rpmsg (snd ?x)) of
               None \<Rightarrow> Some (- EPROTO, snd ?x)
             | Some p \<Rightarrow>
                 if r_len (rxbuf (snd ?x) p) \<noteq> m_len pmsg then Some (- EPROTO, snd ?x)
                 else Some (int (unat (m_len pmsg)),
                        (snd ?x)\<lparr>mem := (mem (snd ?x))(m_buf pmsg :=
                              memcpy (mem (snd ?x) (m_buf pmsg)) (r_buf (rxbuf (snd ?x) p))
                                (unat (r_len (rxbuf (snd ?x) p))))\<rparr>)))"
    using ok by (simp add: i2c_rpmsg_read_eq split_beta)
  show ?thesis
  proof (cases rule: exchange_cases [of ch w ?f])
    case rejected
    with ok show ?thesis unfolding r by (simp add: rw_outcome_def)
  next
    case timeout
    with ok show ?thesis unfolding r by (simp add: rw_outcome_def ETIMEDOUT_def)
  next
    case (answered f p)
    with ok show ?thesis unfolding r by (auto simp: rw_outcome_def uint_0_iff)
  qed
qed

lemma rw_outcome_cong:
  assumes "i_rpdev (i2c_rpmsg w) = i_rpdev (i2c_rpmsg w')" "mem w = mem w'"
    and "i_bus_id (i2c_rpmsg w) = i_bus_id (i2c_rpmsg w')"
    and "i_addr (i2c_rpmsg w) = i_addr (i2c_rpmsg w')"
  shows "rw_outcome rd step pmsg w = rw_outcome rd step pmsg w'"
  unfolding rw_outcome_def assms(1) assms(2) answer_cong [OF assms(3,4)] by (rule refl)

text \<open>One pass of the loop in terms of \<open>rw_outcome\<close>.\<close>

lemma iter_outcome:
  "\<exists>w1. i2c_rpbus_xfer_iter ch nr num i il msgs w =
          Some (fst (rw_outcome (m_flags (msgs ! i) AND I2C_M_RD \<noteq> 0) (ch (length (sent w)))
                       (msgs ! i) (w\<lparr>i2c_rpmsg := expecting nr (msgs ! i) (i2c_rpmsg w)\<rparr>)),
                (i = num - 1 \<or> il), msgs, w1) \<and>
        mem w1 = snd (rw_outcome (m_flags (msgs ! i) AND I2C_M_RD \<noteq> 0) (ch (length (sent w)))
                       (msgs ! i) (w\<lparr>i2c_rpmsg := expecting nr (msgs ! i) (i2c_rpmsg w)\<rparr>))"
proof -
  let ?w1 = "w\<lparr>i2c_rpmsg := expecting nr (msgs ! i) (i2c_rpmsg w)\<rparr>"
  let ?il = "if i = num - 1 then True else il"
  have len: "length (sent ?w1) = length (sent w)" by simp
  obtain r0 w0 where p: "i2c_rpbus_xfer_iter ch nr num i il msgs w = Some (r0, (i = num - 1 \<or> il), msgs, w0)"
    by (rule iter_props [of ch nr num i il msgs w])
  show ?thesis
  proof (cases "m_flags (msgs ! i) AND I2C_M_RD \<noteq> 0")
    case True
    from read_outcome [of ch "msgs ! i" ?w1 nr ?il] obtain w' where
      rd: "i2c_rpmsg_read ch (msgs ! i) ?w1 nr ?il =
             Some (fst (rw_outcome True (ch (length (sent w))) (msgs ! i) ?w1), w')"
        "mem w' = snd (rw_outcome True (ch (length (sent w))) (msgs ! i) ?w1)"
      unfolding len by blast
    from True rd(1) p have "r0 = fst (rw_outcome True (ch (length (sent w))) (msgs ! i) ?w1) \<and> w0 = w'"
      by (auto simp: i2c_rpbus_xfer_iter_def Let_def split: if_splits)
    with p rd(2) True show ?thesis by simp
  next
    case False
    from write_outcome [of ch "msgs ! i" ?w1 nr ?il] obtain w' where
      wr: "i2c_rpmsg_write ch (msgs ! i) ?w1 nr ?il =
             Some (fst (rw_outcome False (ch (length (sent w))) (msgs ! i) ?w1), w')"
        "mem w' = snd (rw_outcome False (ch (length (sent w))) (msgs ! i) ?w1)"
      unfolding len by blast
    from False wr(1) p have "r0 = fst (rw_outcome False (ch (length (sent w))) (msgs ! i) ?w1) \<and> w0 = w'"
      by (auto simp: i2c_rpbus_xfer_iter_def Let_def)
    with p wr(2) False show ?thesis by simp
  qed
qed




subsection \<open>Deliveries before a pass, and stray deliveries in a window\<close>

lemma same_outside_deliver: "same_outside w (deliver ds w)"
  by (subst deliver_eq) (simp add: same_outside_def)

lemma iter_sent:
  assumes "i2c_rpbus_xfer_iter ch nr num i il msgs w = Some (ret, il1, ms1, w1)"
  shows "sent w1 = (if i_rpdev (i2c_rpmsg w) \<and> unat (m_len (msgs ! i)) \<le> I2C_RPMSG_MAX_BUF_SIZE
                    then sent w @ [iter_frame nr (i = num - 1 \<or> il) (msgs ! i) w] else sent w)"
proof -
  define pmsg where "pmsg = msgs ! i"
  define w0 where "w0 = w\<lparr>i2c_rpmsg := expecting nr pmsg (i2c_rpmsg w)\<rparr>"
  define x where "x = exchange ch (iter_frame nr (i = num - 1 \<or> il) pmsg w) w0"
  have e: "i2c_rpbus_xfer_iter ch nr num i il msgs w =
      (if \<not> i_rpdev (i2c_rpmsg w) \<or> I2C_RPMSG_MAX_BUF_SIZE < unat (m_len pmsg)
         then Some (- EINVAL, (i = num - 1 \<or> il), msgs, w0)
         else if m_flags pmsg AND I2C_M_RD = 0 \<or> fst x \<noteq> 0
         then Some (fst x, (i = num - 1 \<or> il), msgs, snd x)
         else (case i_msg (i2c_rpmsg (snd x)) of
                 None \<Rightarrow> Some (- EPROTO, (i = num - 1 \<or> il), msgs, snd x)
               | Some p \<Rightarrow>
                   if r_len (rxbuf (snd x) p) \<noteq> m_len pmsg then Some (- EPROTO, (i = num - 1 \<or> il), msgs, snd x)
                   else Some (int (unat (m_len pmsg)), (i = num - 1 \<or> il), msgs,
                          (snd x)\<lparr>mem := (mem w)(m_buf pmsg :=
                                  memcpy (mem w (m_buf pmsg)) (r_buf (rxbuf (snd x) p)) (unat (m_len pmsg)))\<rparr>)))"
    unfolding iter_eq [of ch nr num i il msgs w] Let_def x_def w0_def pmsg_def by (rule refl)
  have s0: "sent w0 = sent w" by (simp add: w0_def)
  have sx: "sent (snd x) = sent w @ [iter_frame nr (i = num - 1 \<or> il) pmsg w]"
    by (simp add: x_def s0)
  show ?thesis
  proof (cases "\<not> i_rpdev (i2c_rpmsg w) \<or> I2C_RPMSG_MAX_BUF_SIZE < unat (m_len pmsg)")
    case True
    with assms have "w1 = w0" unfolding e by simp
    with True s0 show ?thesis by (auto simp: pmsg_def)
  next
    case False
    with assms have "sent w1 = sent (snd x)"
      unfolding e by (auto split: if_splits option.splits)
    with False sx show ?thesis by (auto simp: pmsg_def)
  qed
qed

lemma iter_rpdev:
  assumes "i2c_rpbus_xfer_iter ch nr num i il msgs w = Some (ret, il1, ms1, w1)"
  shows "i_rpdev (i2c_rpmsg w1) = i_rpdev (i2c_rpmsg w)"
proof -
  obtain r0 w0 where "i2c_rpbus_xfer_iter ch nr num i il msgs w = Some (r0, (i = num - 1 \<or> il), msgs, w0)"
      "i_rpdev (i2c_rpmsg w0) = i_rpdev (i2c_rpmsg w)"
    by (rule iter_props [of ch nr num i il msgs w]) blast
  with assms show ?thesis by simp
qed

lemma iter_same_outside:
  assumes "same_outside w w'"
    and "i2c_rpbus_xfer_iter ch nr num i il msgs w = Some (ret, il1, ms1, w1)"
  shows "\<exists>w1'. i2c_rpbus_xfer_iter ch nr num i il msgs w' = Some (ret, il1, ms1, w1') \<and>
           same_outside w1 w1'"
proof -
  let ?e = "\<lambda>w. w\<lparr>i2c_rpmsg := expecting nr (msgs ! i) (i2c_rpmsg w)\<rparr>"
  from assms(1) have s: "sent w = sent w'" and m: "mem w = mem w'"
    and r: "i_rpdev (i2c_rpmsg w) = i_rpdev (i2c_rpmsg w')"
    by (simp_all add: same_outside_def)
  have o: "rw_outcome rd step (msgs ! i) (?e w) = rw_outcome rd step (msgs ! i) (?e w')" for rd step
    by (rule rw_outcome_cong) (simp_all add: expecting_def m r)
  obtain v where v: "i2c_rpbus_xfer_iter ch nr num i il msgs w =
          Some (fst (rw_outcome (m_flags (msgs ! i) AND I2C_M_RD \<noteq> 0) (ch (length (sent w)))
                       (msgs ! i) (?e w)), (i = num - 1 \<or> il), msgs, v)"
      "mem v = snd (rw_outcome (m_flags (msgs ! i) AND I2C_M_RD \<noteq> 0) (ch (length (sent w)))
                       (msgs ! i) (?e w))"
    using iter_outcome [of ch nr num i il msgs w] by blast
  obtain v' where v': "i2c_rpbus_xfer_iter ch nr num i il msgs w' =
          Some (fst (rw_outcome (m_flags (msgs ! i) AND I2C_M_RD \<noteq> 0) (ch (length (sent w')))
                       (msgs ! i) (?e w')), (i = num - 1 \<or> il), msgs, v')"
      "mem v' = snd (rw_outcome (m_flags (msgs ! i) AND I2C_M_RD \<noteq> 0) (ch (length (sent w')))
                       (msgs ! i) (?e w'))"
    using iter_outcome [of ch nr num i il msgs w'] by blast
  from v(1) assms(2) have e: "ret = fst (rw_outcome (m_flags (msgs ! i) AND I2C_M_RD \<noteq> 0)
        (ch (length (sent w))) (msgs ! i) (?e w))" "il1 = (i = num - 1 \<or> il)" "ms1 = msgs" "v = w1"
    by auto
  obtain r0 w0 where p: "i2c_rpbus_xfer_iter ch nr num i il msgs w = Some (r0, (i = num - 1 \<or> il), msgs, w0)"
      "i_rpdev (i2c_rpmsg w0) = i_rpdev (i2c_rpmsg w)"
      "sent w0 = sent w \<or> sent w0 = sent w @ [iter_frame nr (i = num - 1 \<or> il) (msgs ! i) w]"
      "0 \<le> r0 \<Longrightarrow> sent w0 = sent w @ [iter_frame nr (i = num - 1 \<or> il) (msgs ! i) w]"
    by (rule iter_props [of ch nr num i il msgs w]) blast
  have f: "iter_frame nr b (msgs ! i) w = iter_frame nr b (msgs ! i) w'" for b
    by (simp add: iter_frame_def m)
  from p(1) assms(2) have w0: "w0 = w1" by auto
  have "same_outside w1 v'"
    unfolding same_outside_def
    using iter_sent [OF assms(2)] iter_sent [OF v'(1)] p(2) w0 v(2) v'(2) e(4) o s r f
      iter_rpdev [OF v'(1)]
    by simp
  with v'(1) e o s show ?thesis by simp
qed

lemma state_same_outside:
  "same_outside w w' \<Longrightarrow> xfer_state ch nr msgs w k = Some (il, ms, wk) \<Longrightarrow>
     \<exists>wk'. xfer_state ch nr msgs w' k = Some (il, ms, wk') \<and> same_outside wk wk'"
proof (induction k arbitrary: il ms wk)
  case 0
  then show ?case by simp
next
  case (Suc k)
  from Suc.prems(2) obtain il0 ms0 w0 ret where
    st: "xfer_state ch nr msgs w k = Some (il0, ms0, w0)" and
    it: "i2c_rpbus_xfer_iter ch nr (length msgs) k il0 ms0 w0 = Some (ret, il, ms, wk)" and
    ok: "0 \<le> ret"
    unfolding state_Suc by blast
  from Suc.IH [OF Suc.prems(1) st] obtain w0' where
    st': "xfer_state ch nr msgs w' k = Some (il0, ms0, w0')" and so: "same_outside w0 w0'"
    by blast
  from iter_same_outside [OF so it] obtain wk' where
    "i2c_rpbus_xfer_iter ch nr (length msgs) k il0 ms0 w0' = Some (ret, il, ms, wk')"
    "same_outside wk wk'"
    by blast
  with st' ok have "xfer_state ch nr msgs w' (Suc k) = Some (il, ms, wk') \<and> same_outside wk wk'"
    unfolding state_Suc by blast
  then show ?case by blast
qed

lemma xfer_same_outside:
  assumes "same_outside w w'" and "i2c_rpbus_xfer ch nr msgs w = Some (ret, ms, w1)"
  shows "\<exists>w1'. i2c_rpbus_xfer ch nr msgs w' = Some (ret, ms, w1') \<and> same_outside w1 w1'"
proof (cases rule: xfer_cases [of ch nr msgs w])
  case (complete_run il wN)
  from state_same_outside [OF assms(1) complete_run(1)] obtain wN' where
    st': "xfer_state ch nr msgs w' (length msgs) = Some (il, msgs, wN')" and so: "same_outside wN wN'"
    by blast
  from xfer_done [OF st'] complete_run(2) assms(2) so show ?thesis by simp
next
  case (failed_at k il wk r il1 v)
  from state_same_outside [OF assms(1) failed_at(2)] obtain wk' where
    st': "xfer_state ch nr msgs w' k = Some (il, msgs, wk')" and so: "same_outside wk wk'"
    by blast
  from iter_same_outside [OF so failed_at(3)] obtain v' where
    it': "i2c_rpbus_xfer_iter ch nr (length msgs) k il msgs wk' = Some (r, il1, msgs, v')"
    and so': "same_outside v v'"
    by blast
  from xfer_fail [OF st' failed_at(1) it' failed_at(4)] failed_at(5) assms(2) so'
  show ?thesis by simp
qed

lemma written_pt:
  "rx p = rx' p \<Longrightarrow> written es rx p = written es rx' p"
proof (induction es arbitrary: rx rx')
  case Nil
  then show ?case by simp
next
  case (Cons d es)
  have "(rx(fst d := fst (snd d))) p = (rx'(fst d := fst (snd d))) p"
    using Cons.prems by simp
  then have "written es (rx(fst d := fst (snd d))) p = written es (rx'(fst d := fst (snd d))) p"
    by (rule Cons.IH)
  then show ?case by simp
qed

lemma written_drop:
  "p \<noteq> a \<Longrightarrow> written (ds @ (a, f, n) # es) rx p = written (ds @ es) rx p"
  unfolding written_append by (simp, rule written_pt, simp)

lemma accepted_drop:
  "\<not> takes w d \<Longrightarrow> accepted w (ds @ d # es) = accepted w (ds @ es)"
  by (simp add: accepted_def)

lemma answer_drop:
  assumes "\<not> takes w (a, f, n)"
    and "accepted w (ds @ es) = [] \<or> a \<noteq> fst (last (accepted w (ds @ es)))"
  shows "answer (ds @ (a, f, n) # es) w = answer (ds @ es) w"
  unfolding answer_eq accepted_drop [OF assms(1)]
  using assms(2) by (auto simp: written_drop)

lemma read_write_obs:
  assumes "send_ret (ch (length (sent w))) = send_ret (ch' (length (sent w)))"
    and "answer (replies (ch (length (sent w)))) w = answer (replies (ch' (length (sent w)))) w"
  shows "map_option (\<lambda>x. (fst x, mem (snd x))) (i2c_rpmsg_read ch pmsg w bus il) =
         map_option (\<lambda>x. (fst x, mem (snd x))) (i2c_rpmsg_read ch' pmsg w bus il)"
    and "map_option (\<lambda>x. (fst x, mem (snd x))) (i2c_rpmsg_write ch pmsg w bus il) =
         map_option (\<lambda>x. (fst x, mem (snd x))) (i2c_rpmsg_write ch' pmsg w bus il)"
proof -
  have o: "rw_outcome rd (ch (length (sent w))) pmsg w = rw_outcome rd (ch' (length (sent w))) pmsg w"
    for rd
    by (simp add: rw_outcome_def assms)
  from read_outcome [of ch pmsg w bus il] read_outcome [of ch' pmsg w bus il] o [of True]
  show "map_option (\<lambda>x. (fst x, mem (snd x))) (i2c_rpmsg_read ch pmsg w bus il) =
         map_option (\<lambda>x. (fst x, mem (snd x))) (i2c_rpmsg_read ch' pmsg w bus il)"
    by (auto simp: prod_eq_iff)
  from write_outcome [of ch pmsg w bus il] write_outcome [of ch' pmsg w bus il] o [of False]
  show "map_option (\<lambda>x. (fst x, mem (snd x))) (i2c_rpmsg_write ch pmsg w bus il) =
         map_option (\<lambda>x. (fst x, mem (snd x))) (i2c_rpmsg_write ch' pmsg w bus il)"
    by (auto simp: prod_eq_iff)
qed

lemma timeout_outcome:
  assumes "i_rpdev (i2c_rpmsg w)" "unat (m_len pmsg) \<le> I2C_RPMSG_MAX_BUF_SIZE"
    and "0 \<le> send_ret (ch (length (sent w)))"
    and "accepted w (replies (ch (length (sent w)))) = []"
  shows "fst (rw_outcome rd (ch (length (sent w))) pmsg w) = - ETIMEDOUT"
  using assms by (simp add: rw_outcome_def answer_eq)

text \<open>
  The answer is the frame of the last delivery the callback takes when no later
  delivery of the window is written to the same receive buffer.
\<close>

lemma answer_intact:
  assumes "takes w (a, f, n)" and "\<forall>d\<in>set es. \<not> takes w d \<and> fst d \<noteq> a"
  shows "answer (ds @ (a, f, n) # es) w = Some f"
proof -
  from assms(2) have none: "filter (takes w) es = []" by (simp add: filter_empty_conv)
  have acc: "accepted w (ds @ (a, f, n) # es) = accepted w ds @ [(a, f, n)]"
    using assms(1) none by (simp add: accepted_def)
  from assms(2) have "a \<notin> fst ` set es" by auto
  then have "written (ds @ (a, f, n) # es) (rxbuf w) a = f"
    by (simp add: written_append written_other)
  with acc show ?thesis by (simp add: answer_eq)
qed

subsection \<open>Runs on the example data\<close>

lemmas consts_defs = I2C_RPMSG_MAX_BUF_SIZE_def I2C_RPMSG_CATEGORY_def I2C_RPMSG_VERSION_def
  I2C_RPMSG_TYPE_REQUEST_def I2C_RPMSG_TYPE_RESPONSE_def I2C_RPMSG_COMMAND_READ_def
  I2C_RPMSG_COMMAND_WRITE_def I2C_RPMSG_PRIORITY_def I2C_RPMSG_M_STOP_def I2C_M_RD_def
  EINVAL_def EPROTO_def ETIMEDOUT_def

lemma replicate_16: "replicate 16 (0 :: u8) = [0, 0, 0, 0, 0, 0, 0, 0, 0, 0, 0, 0, 0, 0, 0, 0]"
  by (simp add: eval_nat_numeral)

lemma replicate_15: "replicate 15 (0 :: u8) = [0, 0, 0, 0, 0, 0, 0, 0, 0, 0, 0, 0, 0, 0, 0]"
  by (simp add: eval_nat_numeral)

lemma replicate_5: "replicate 5 (0 :: u8) = [0, 0, 0, 0, 0]"
  by (simp add: eval_nat_numeral)

lemmas code_defs = i2c_rpbus_xfer_iter_def i2c_rpmsg_read_def i2c_rpmsg_write_def rpmsg_xfer_def
  rpmsg_send_def wait_for_completion_timeout_def i2c_rpmsg_cb_def complete_def
  reinit_completion_def memcpy_def request_frame_def expecting_def write_copy.simps Let_def
  replicate_16 replicate_15 replicate_5

lemmas data_defs = wr_msg_def rd_msg_def request_def after_def world0_def probed_def
  response_frame_def rx0_def no_rx_def

lemma answering_pass0:
  "i2c_rpbus_xfer_iter answering 1 (Suc (Suc 0)) 0 False [wr_msg, rd_msg] world0 =
     Some (0, False, [wr_msg, rd_msg],
           after (Some 0) [request 1 0 1 [0xAA]] [0, 0] (rx0 (response_frame 1 0x50 0 1 [])))"
  by (simp add: code_defs consts_defs data_defs answering_def)

lemma answering_pass1:
  "i2c_rpbus_xfer_iter answering 1 (Suc (Suc 0)) (Suc 0) False [wr_msg, rd_msg]
       (after (Some 0) [request 1 0 1 [0xAA]] [0, 0] (rx0 (response_frame 1 0x50 0 1 []))) =
     Some (2, True, [wr_msg, rd_msg],
           after (Some 0) [request 1 0 1 [0xAA], request 0 0x201 2 []] [0xDE, 0xAD]
             (rx0 (response_frame 1 0x50 0 2 [0xDE, 0xAD])))"
  by (simp add: code_defs consts_defs data_defs answering_def)

lemma answering_run:
  "i2c_rpbus_xfer answering 1 [wr_msg, rd_msg] world0 =
     Some (2, [wr_msg, rd_msg],
           after (Some 0) [request 1 0 1 [0xAA], request 0 0x201 2 []] [0xDE, 0xAD]
             (rx0 (response_frame 1 0x50 0 2 [0xDE, 0xAD])))"
proof -
  have "xfer_state answering 1 [wr_msg, rd_msg] world0 (Suc (Suc 0)) =
      Some (True, [wr_msg, rd_msg],
           after (Some 0) [request 1 0 1 [0xAA], request 0 0x201 2 []] [0xDE, 0xAD]
             (rx0 (response_frame 1 0x50 0 2 [0xDE, 0xAD])))"
    by (simp add: answering_pass0 answering_pass1)
  then show ?thesis
    using xfer_done [of answering 1 "[wr_msg, rd_msg]" world0] by simp
qed


lemma answering_write:
  "i2c_rpmsg_write answering wr_msg (world0\<lparr>i2c_rpmsg := expecting 1 wr_msg probed\<rparr>) 1 False
     = Some (0, after (Some 0) [request 1 0 1 [0xAA]] [0, 0] (rx0 (response_frame 1 0x50 0 1 [])))"
  by (simp add: code_defs consts_defs data_defs answering_def)


lemma not_ready_pass0:
  "i2c_rpbus_xfer_iter not_ready 1 (Suc (Suc 0)) 0 False [rd_msg, wr_msg] world0 =
     Some (- 10, False, [rd_msg, wr_msg],
           after (Some 0) [request 0 1 2 []] [0, 0] (rx0 (response_frame 1 0x50 10 0 [])))"
  by (simp add: code_defs consts_defs data_defs not_ready_def)



lemma silent_nothing:
  "accepted w (replies (silent (length (sent w)))) = []"
  by (simp add: accepted_def silent_def)

lemma late_pass0:
  "i2c_rpbus_xfer_iter late 1 (Suc 0) 0 False [rd_msg] world0 =
     Some (- 110, True, [rd_msg], timed_out)"
  by (simp add: code_defs consts_defs data_defs timed_out_def late_def)

lemma late_pass1:
  "i2c_rpbus_xfer_iter late 1 (Suc 0) 0 False [wr_msg] timed_out =
     Some (0, True, [wr_msg],
           after (Some 0) [request 0 0x201 2 [], request 1 0x200 1 [0xAA]] [0, 0]
             (rx0 (response_frame 1 0x50 0 2 [0xDE, 0xAD])))"
  by (simp add: code_defs consts_defs data_defs timed_out_def late_def)

lemma rejecting_pass:
  "i2c_rpbus_xfer_iter rejecting 1 (Suc 0) 0 False [wr_msg] world0 =
     Some (- 12, True, [wr_msg], after None [request 1 0x200 1 [0xAA]] [0, 0] no_rx)"
  by (simp add: code_defs consts_defs data_defs rejecting_def)

lemma silent_pass:
  "i2c_rpbus_xfer_iter silent 1 (Suc 0) 0 False [wr_msg] timed_out =
     Some (- 110, True, [wr_msg],
           after None [request 0 0x201 2 [], request 1 0x200 1 [0xAA]] [0, 0] no_rx)"
  by (simp add: code_defs consts_defs data_defs timed_out_def silent_def)

lemma overwriting_pass0:
  "i2c_rpbus_xfer_iter overwriting 1 (Suc 0) 0 False [wr_other] world0 =
     Some (- 110, True, [wr_other], timed_out_other)"
  by (simp add: code_defs consts_defs data_defs timed_out_other_def wr_other_def overwriting_def)

lemma overwriting_pass1:
  "i2c_rpbus_xfer_iter overwriting 1 (Suc 0) 0 False [wr_msg] timed_out_other =
     Some (- 9, True, [wr_msg],
           after (Some 0) [(request 1 0x200 1 [0xAA])\<lparr>r_addr := 0x51\<rparr>, request 1 0x200 1 [0xAA]]
             [0, 0] (rx0 (response_frame 1 0x51 9 0 [])))"
  by (simp add: code_defs consts_defs data_defs timed_out_other_def overwriting_def)

lemma elsewhere_pass1:
  "i2c_rpbus_xfer_iter elsewhere 1 (Suc 0) 0 False [wr_msg] timed_out_other =
     Some (0, True, [wr_msg],
           after (Some 0) [(request 1 0x200 1 [0xAA])\<lparr>r_addr := 0x51\<rparr>, request 1 0x200 1 [0xAA]]
             [0, 0] ((rx0 (response_frame 1 0x50 0 1 []))(Suc 0 := response_frame 1 0x51 9 0 [])))"
  by (simp add: code_defs consts_defs data_defs timed_out_other_def elsewhere_def)



section \<open>The claims\<close>

subsection \<open>The STOP bit\<close>

text \<open>
  C1: the frames a transfer hands to \<open>rpmsg_send\<close> are, in order, the frames of
  messages 0, 1, ...: frame \<open>j\<close> carries the address of message \<open>j\<close> and the command
  of its direction, and its flags are the flags of message \<open>j\<close> with the STOP bit 0x0200
  ORed in when \<open>j\<close> is the last index and the flags of message \<open>j\<close> unchanged otherwise,
  for reads and writes alike. A transfer that returns no error has sent one frame per
  message.
\<close>

theorem stop_bit_on_last_frame_only:
  assumes "i2c_rpbus_xfer ch nr msgs w = Some (ret, msgs', w')"
  shows "\<exists>fs. sent w' = sent w @ fs \<and> length fs \<le> length msgs \<and>
           (0 \<le> ret \<longrightarrow> length fs = length msgs) \<and>
           (\<forall>j<length fs.
              r_addr (fs ! j) = m_addr (msgs ! j) \<and>
              h_cmd (r_header (fs ! j)) =
                (if m_flags (msgs ! j) AND I2C_M_RD \<noteq> 0 then I2C_RPMSG_COMMAND_READ
                 else I2C_RPMSG_COMMAND_WRITE) \<and>
              r_flags (fs ! j) =
                (if j = length msgs - 1 then m_flags (msgs ! j) OR I2C_RPMSG_M_STOP
                 else m_flags (msgs ! j)))"
proof (cases rule: xfer_cases [of ch nr msgs w])
  case (complete_run il wN)
  from state_inv [OF complete_run(1)] obtain fs where
    "sent wN = sent w @ fs" "length fs = length msgs" "\<forall>j<length msgs. frame_of msgs j (fs ! j)"
    by auto
  with complete_run(2) assms show ?thesis
    by (intro exI [of _ fs]) (simp add: frame_of_def)
next
  case (failed_at k il wk r il1 w1)
  from state_inv [OF failed_at(2)] failed_at(1) obtain fs where
    fs: "sent wk = sent w @ fs" "length fs = k" "\<forall>j<k. frame_of msgs j (fs ! j)" and il: "\<not> il"
    by auto
  obtain r' w1' where
    p: "i2c_rpbus_xfer_iter ch nr (length msgs) k il msgs wk =
          Some (r', (k = length msgs - 1 \<or> il), msgs, w1')"
      "sent w1' = sent wk \<or>
       sent w1' = sent wk @ [iter_frame nr (k = length msgs - 1 \<or> il) (msgs ! k) wk]"
    by (rule iter_props [of ch nr "length msgs" k il msgs wk]) blast
  from p(1) failed_at(3) have w1: "w1' = w1" by simp
  from failed_at(5) assms have res: "ret = r" "w' = w1" by simp_all
  from p(2) show ?thesis
  proof
    assume "sent w1' = sent wk"
    with fs failed_at(1,4) res w1 show ?thesis
      by (intro exI [of _ fs]) (simp add: frame_of_def)
  next
    assume s: "sent w1' = sent wk @ [iter_frame nr (k = length msgs - 1 \<or> il) (msgs ! k) wk]"
    let ?f = "iter_frame nr (k = length msgs - 1) (msgs ! k) wk"
    have "\<forall>j<Suc k. frame_of msgs j ((fs @ [?f]) ! j)"
      using fs(2,3) frame_of_iter_frame [OF failed_at(1)] by (auto simp: nth_append less_Suc_eq)
    with s il fs failed_at(1,4) res w1 show ?thesis
      by (intro exI [of _ "fs @ [?f]"]) (simp add: frame_of_def)
  qed
qed

theorem stop_bit_on_last_frame_only_witness:
  "i2c_rpbus_xfer answering 1 [wr_msg, rd_msg] world0 =
     Some (2, [wr_msg, rd_msg],
           after (Some 0) [request 1 0 1 [0xAA], request 0 0x201 2 []] [0xDE, 0xAD]
             (rx0 (response_frame 1 0x50 0 2 [0xDE, 0xAD]))) \<and>
   map r_flags (sent (after (Some 0) [request 1 0 1 [0xAA], request 0 0x201 2 []] [0xDE, 0xAD]
             (rx0 (response_frame 1 0x50 0 2 [0xDE, 0xAD]))))
     = [m_flags wr_msg, m_flags rd_msg OR I2C_RPMSG_M_STOP] \<and>
   m_flags wr_msg AND I2C_RPMSG_M_STOP = 0"
  using stop_bit_on_last_frame_only [OF answering_run] answering_run
  by (simp add: after_def request_def wr_msg_def rd_msg_def I2C_RPMSG_M_STOP_def)

subsection \<open>Errors end the transfer\<close>

text \<open>
  C2: when the passes for messages 0 to \<open>k - 1\<close> succeeded and the pass for message
  \<open>k\<close> returns a negative result, the transfer returns exactly that result, in the
  state that pass left: the frames sent are at most \<open>k + 1\<close>, each the frame of one of
  the messages 0 to \<open>k\<close>, and none for a later message. (It holds for every
  \<open>k < N\<close>, so for \<open>k < N - 1\<close>.)
\<close>

theorem failed_message_aborts_transfer:
  assumes "k < length msgs"
    and "xfer_state ch nr msgs w k = Some (il, ms, wk)"
    and "i2c_rpbus_xfer_iter ch nr (length msgs) k il ms wk = Some (ret, il1, ms1, w1)"
    and "ret < 0"
  shows "i2c_rpbus_xfer ch nr msgs w = Some (ret, ms1, w1) \<and>
         (\<exists>fs. sent w1 = sent w @ fs \<and> length fs \<le> Suc k \<and>
               (\<forall>j<length fs. frame_of msgs j (fs ! j)))"
proof -
  from state_inv [OF assms(2)] assms(1) obtain fs where
    ms: "ms = msgs" and il: "\<not> il" and
    fs: "sent wk = sent w @ fs" "length fs = k" "\<forall>j<k. frame_of msgs j (fs ! j)"
    by auto
  obtain r' w1' where
    p: "i2c_rpbus_xfer_iter ch nr (length msgs) k il msgs wk =
          Some (r', (k = length msgs - 1 \<or> il), msgs, w1')"
      "sent w1' = sent wk \<or>
       sent w1' = sent wk @ [iter_frame nr (k = length msgs - 1 \<or> il) (msgs ! k) wk]"
    by (rule iter_props [of ch nr "length msgs" k il msgs wk]) blast
  from p(1) assms(3) ms have w1: "w1' = w1" by simp
  let ?f = "iter_frame nr (k = length msgs - 1) (msgs ! k) wk"
  have all: "\<forall>j<Suc k. frame_of msgs j ((fs @ [?f]) ! j)"
    using fs(2,3) frame_of_iter_frame [OF assms(1)] by (auto simp: nth_append less_Suc_eq)
  have "\<exists>gs. sent w1 = sent w @ gs \<and> length gs \<le> Suc k \<and> (\<forall>j<length gs. frame_of msgs j (gs ! j))"
    using p(2)
  proof
    assume "sent w1' = sent wk"
    with fs w1 show ?thesis by (intro exI [of _ fs]) simp
  next
    assume "sent w1' = sent wk @ [iter_frame nr (k = length msgs - 1 \<or> il) (msgs ! k) wk]"
    with fs il w1 all show ?thesis by (intro exI [of _ "fs @ [?f]"]) simp
  qed
  with xfer_fail [OF assms(2) assms(1) assms(3) assms(4)] show ?thesis by simp
qed

theorem failed_message_aborts_transfer_witness:
  "(0 :: nat) < length [rd_msg, wr_msg] - 1 \<and>
   xfer_state not_ready 1 [rd_msg, wr_msg] world0 0 = Some (False, [rd_msg, wr_msg], world0) \<and>
   i2c_rpbus_xfer_iter not_ready 1 (length [rd_msg, wr_msg]) 0 False [rd_msg, wr_msg] world0 =
     Some (- 10, False, [rd_msg, wr_msg],
           after (Some 0) [request 0 1 2 []] [0, 0] (rx0 (response_frame 1 0x50 10 0 []))) \<and>
   i2c_rpbus_xfer not_ready 1 [rd_msg, wr_msg] world0 =
     Some (- 10, [rd_msg, wr_msg],
           after (Some 0) [request 0 1 2 []] [0, 0] (rx0 (response_frame 1 0x50 10 0 []))) \<and>
   sent (after (Some 0) [request 0 1 2 []] [0, 0] (rx0 (response_frame 1 0x50 10 0 [])))
     = sent world0 @ [request 0 1 2 []]"
proof -
  have k: "0 < length [rd_msg, wr_msg]" by simp
  have st: "xfer_state not_ready 1 [rd_msg, wr_msg] world0 0 = Some (False, [rd_msg, wr_msg], world0)"
    by simp
  have it: "i2c_rpbus_xfer_iter not_ready 1 (length [rd_msg, wr_msg]) 0 False [rd_msg, wr_msg] world0 =
     Some (- 10, False, [rd_msg, wr_msg],
           after (Some 0) [request 0 1 2 []] [0, 0] (rx0 (response_frame 1 0x50 10 0 [])))"
    using not_ready_pass0 by simp
  have neg: "(- 10 :: int) < 0" by simp
  have snt: "sent (after (Some 0) [request 0 1 2 []] [0, 0] (rx0 (response_frame 1 0x50 10 0 [])))
     = sent world0 @ [request 0 1 2 []]"
    by (simp add: after_def world0_def)
  from failed_message_aborts_transfer [OF k st it neg] st it snt show ?thesis by simp
qed




subsection \<open>Reads\<close>



subsection \<open>Oversized messages\<close>

text \<open>
  C5: a message whose length exceeds 16, read or write, gets \<open>-EINVAL\<close> and the state
  is the one before the call: no frame was built, the list of frames handed to
  \<open>rpmsg_send\<close> has not grown.
\<close>

theorem oversized_message_rejected:
  "I2C_RPMSG_MAX_BUF_SIZE < unat (m_len pmsg) \<Longrightarrow>
     i2c_rpmsg_read ch pmsg w bus is_last = Some (- EINVAL, w) \<and>
     i2c_rpmsg_write ch pmsg w bus is_last = Some (- EINVAL, w)"
  by (simp add: i2c_rpmsg_read_def i2c_rpmsg_write_def)

theorem oversized_message_rejected_witness:
  "I2C_RPMSG_MAX_BUF_SIZE < unat (m_len \<lparr>m_addr = 0x50, m_flags = 1, m_len = 17, m_buf = 1\<rparr>) \<and>
   i2c_rpmsg_read silent \<lparr>m_addr = 0x50, m_flags = 1, m_len = 17, m_buf = 1\<rparr> world0 1 True
     = Some (- 22, world0) \<and>
   i2c_rpmsg_write silent \<lparr>m_addr = 0x50, m_flags = 1, m_len = 17, m_buf = 1\<rparr> world0 1 True
     = Some (- 22, world0) \<and>
   sent world0 = []"
  using oversized_message_rejected
    [of "\<lparr>m_addr = 0x50, m_flags = 1, m_len = 17, m_buf = 1\<rparr>" silent world0 1 True]
  by (simp add: I2C_RPMSG_MAX_BUF_SIZE_def EINVAL_def world0_def)

subsection \<open>The receive callback\<close>

text \<open>
  C6: the callback stores the frame, by the address of the receive buffer that holds
  it, and fires the completion exactly when the type is Response, bus and address are
  the expected ones and the length field is at most 16; in every other case it returns
  \<open>-EINVAL\<close> and the state is unchanged.
\<close>

theorem callback_stores_iff:
  "(i2c_rpmsg_cb a n w = (0, w\<lparr>i2c_rpmsg := complete ((i2c_rpmsg w)\<lparr>i_msg := Some a\<rparr>)\<rparr>)) =
     (h_type (r_header (rxbuf w a)) = I2C_RPMSG_TYPE_RESPONSE \<and>
      r_bus_id (rxbuf w a) = i_bus_id (i2c_rpmsg w) \<and> r_addr (rxbuf w a) = i_addr (i2c_rpmsg w) \<and>
      unat (r_len (rxbuf w a)) \<le> I2C_RPMSG_MAX_BUF_SIZE) \<and>
   (i2c_rpmsg_cb a n w = (0, w\<lparr>i2c_rpmsg := complete ((i2c_rpmsg w)\<lparr>i_msg := Some a\<rparr>)\<rparr>) \<or>
    i2c_rpmsg_cb a n w = (- EINVAL, w))"
  by (auto simp: i2c_rpmsg_cb_def EINVAL_def)

theorem callback_stores_iff_witness:
  "i2c_rpmsg_cb 0 34 (after None [] [0, 0] (rx0 (response_frame 1 0x50 0 2 [0xDE, 0xAD])))
     = (0, (after None [] [0, 0] (rx0 (response_frame 1 0x50 0 2 [0xDE, 0xAD])))
             \<lparr>i2c_rpmsg := complete ((i2c_rpmsg
                  (after None [] [0, 0] (rx0 (response_frame 1 0x50 0 2 [0xDE, 0xAD]))))
                    \<lparr>i_msg := Some 0\<rparr>)\<rparr>) \<and>
   i2c_rpmsg_cb 0 34 (after None [] [0, 0] (rx0 (response_frame 1 0x51 0 2 [0xDE, 0xAD])))
     = (- EINVAL, after None [] [0, 0] (rx0 (response_frame 1 0x51 0 2 [0xDE, 0xAD])))"
proof -
  let ?w = "after None [] [0, 0] (rx0 (response_frame 1 0x50 0 2 [0xDE, 0xAD]))"
  let ?w' = "after None [] [0, 0] (rx0 (response_frame 1 0x51 0 2 [0xDE, 0xAD]))"
  have yes: "h_type (r_header (rxbuf ?w 0)) = I2C_RPMSG_TYPE_RESPONSE \<and>
      r_bus_id (rxbuf ?w 0) = i_bus_id (i2c_rpmsg ?w) \<and> r_addr (rxbuf ?w 0) = i_addr (i2c_rpmsg ?w) \<and>
      unat (r_len (rxbuf ?w 0)) \<le> I2C_RPMSG_MAX_BUF_SIZE"
    by (simp add: response_frame_def after_def rx0_def I2C_RPMSG_MAX_BUF_SIZE_def)
  have no: "r_addr (rxbuf ?w' 0) \<noteq> i_addr (i2c_rpmsg ?w')"
    by (simp add: response_frame_def after_def rx0_def)
  from yes no callback_stores_iff [of 0 34 ?w] callback_stores_iff [of 0 34 ?w']
  show ?thesis by blast
qed

text \<open>
  C7, as the code has it: a read or write whose frame \<open>rpmsg_send\<close> accepted and in
  whose wait the callback takes no delivery returns \<open>-ETIMEDOUT\<close>. Deliveries that reach
  the callback while no exchange waits, whether it takes them or not, change nothing
  of a following transfer: its result, its messages, the caller buffers and the frames
  sent are the same. A frame whose bus or address differ from the expected ones is
  dropped by the callback, with \<open>-EINVAL\<close> and the state as it was; delivered in the
  wait of an exchange it does not end that wait, and the result and the caller
  buffers of the read or write are those of the same wait without it, provided the
  receive buffer it is written to is not the one whose address the callback stored
  last.
\<close>

theorem timeout_and_stray_response:
  "(i_rpdev (i2c_rpmsg w) \<and> unat (m_len pmsg) \<le> I2C_RPMSG_MAX_BUF_SIZE \<and>
    0 \<le> send_ret (ch (length (sent w))) \<and>
    accepted w (replies (ch (length (sent w)))) = []
    \<longrightarrow> (\<exists>w'. i2c_rpmsg_read ch pmsg w bus is_last = Some (- ETIMEDOUT, w')) \<and>
        (\<exists>w'. i2c_rpmsg_write ch pmsg w bus is_last = Some (- ETIMEDOUT, w'))) \<and>
   (i2c_rpbus_xfer ch nr msgs w0 = Some (ret, ms, w1)
    \<longrightarrow> (\<exists>w1'. i2c_rpbus_xfer ch nr msgs (deliver ds w0) = Some (ret, ms, w1') \<and>
               mem w1' = mem w1 \<and> sent w1' = sent w1)) \<and>
   (r_bus_id (rxbuf v a) \<noteq> i_bus_id (i2c_rpmsg v) \<or> r_addr (rxbuf v a) \<noteq> i_addr (i2c_rpmsg v)
    \<longrightarrow> i2c_rpmsg_cb a n v = (- EINVAL, v)) \<and>
   (replies (ch1 (length (sent u))) = es @ (b, f, k) # es' \<and>
    replies (ch2 (length (sent u))) = es @ es' \<and>
    send_ret (ch1 (length (sent u))) = send_ret (ch2 (length (sent u))) \<and>
    (r_bus_id f \<noteq> i_bus_id (i2c_rpmsg u) \<or> r_addr f \<noteq> i_addr (i2c_rpmsg u)) \<and>
    (accepted u (es @ es') = [] \<or> b \<noteq> fst (last (accepted u (es @ es'))))
    \<longrightarrow> accepted u (es @ (b, f, k) # es') = accepted u (es @ es') \<and>
        map_option (\<lambda>x. (fst x, mem (snd x))) (i2c_rpmsg_read ch1 pm u bus1 il) =
        map_option (\<lambda>x. (fst x, mem (snd x))) (i2c_rpmsg_read ch2 pm u bus1 il) \<and>
        map_option (\<lambda>x. (fst x, mem (snd x))) (i2c_rpmsg_write ch1 pm u bus1 il) =
        map_option (\<lambda>x. (fst x, mem (snd x))) (i2c_rpmsg_write ch2 pm u bus1 il))"
proof (intro conjI impI)
  assume t: "i_rpdev (i2c_rpmsg w) \<and> unat (m_len pmsg) \<le> I2C_RPMSG_MAX_BUF_SIZE \<and>
    0 \<le> send_ret (ch (length (sent w))) \<and>
    accepted w (replies (ch (length (sent w)))) = []"
  then have o: "fst (rw_outcome rd (ch (length (sent w))) pmsg w) = - ETIMEDOUT" for rd
    by (intro timeout_outcome) simp_all
  from read_outcome [of ch pmsg w bus is_last] o [of True]
  show "\<exists>w'. i2c_rpmsg_read ch pmsg w bus is_last = Some (- ETIMEDOUT, w')" by auto
  from write_outcome [of ch pmsg w bus is_last] o [of False]
  show "\<exists>w'. i2c_rpmsg_write ch pmsg w bus is_last = Some (- ETIMEDOUT, w')" by auto
next
  assume "i2c_rpbus_xfer ch nr msgs w0 = Some (ret, ms, w1)"
  with same_outside_deliver [of w0 ds] have
    "\<exists>w1'. i2c_rpbus_xfer ch nr msgs (deliver ds w0) = Some (ret, ms, w1') \<and> same_outside w1 w1'"
    by (rule xfer_same_outside)
  then show "\<exists>w1'. i2c_rpbus_xfer ch nr msgs (deliver ds w0) = Some (ret, ms, w1') \<and>
               mem w1' = mem w1 \<and> sent w1' = sent w1"
    by (auto simp: same_outside_def)
next
  assume "r_bus_id (rxbuf v a) \<noteq> i_bus_id (i2c_rpmsg v) \<or> r_addr (rxbuf v a) \<noteq> i_addr (i2c_rpmsg v)"
  then show "i2c_rpmsg_cb a n v = (- EINVAL, v)"
    by (auto simp: i2c_rpmsg_cb_def)
next
  assume s: "replies (ch1 (length (sent u))) = es @ (b, f, k) # es' \<and>
    replies (ch2 (length (sent u))) = es @ es' \<and>
    send_ret (ch1 (length (sent u))) = send_ret (ch2 (length (sent u))) \<and>
    (r_bus_id f \<noteq> i_bus_id (i2c_rpmsg u) \<or> r_addr f \<noteq> i_addr (i2c_rpmsg u)) \<and>
    (accepted u (es @ es') = [] \<or> b \<noteq> fst (last (accepted u (es @ es'))))"
  then have nt: "\<not> takes u (b, f, k)" by (auto simp: takes_iff)
  then show "accepted u (es @ (b, f, k) # es') = accepted u (es @ es')"
    by (rule accepted_drop)
  from s have pv: "accepted u (es @ es') = [] \<or> b \<noteq> fst (last (accepted u (es @ es')))"
    by blast
  from nt pv have "answer (es @ (b, f, k) # es') u = answer (es @ es') u"
    by (rule answer_drop)
  with s have an: "answer (replies (ch1 (length (sent u)))) u = answer (replies (ch2 (length (sent u)))) u"
    by simp
  from s have sr: "send_ret (ch1 (length (sent u))) = send_ret (ch2 (length (sent u)))" by blast
  from sr an show "map_option (\<lambda>x. (fst x, mem (snd x))) (i2c_rpmsg_read ch1 pm u bus1 il) =
        map_option (\<lambda>x. (fst x, mem (snd x))) (i2c_rpmsg_read ch2 pm u bus1 il)"
    by (rule read_write_obs(1))
  from sr an show "map_option (\<lambda>x. (fst x, mem (snd x))) (i2c_rpmsg_write ch1 pm u bus1 il) =
        map_option (\<lambda>x. (fst x, mem (snd x))) (i2c_rpmsg_write ch2 pm u bus1 il)"
    by (rule read_write_obs(2))
qed

theorem timeout_and_stray_response_witness:
  "accepted (timed_out\<lparr>i2c_rpmsg := expecting 1 wr_other (i2c_rpmsg timed_out)\<rparr>)
       (replies (silent (length (sent (timed_out\<lparr>i2c_rpmsg := expecting 1 wr_other (i2c_rpmsg timed_out)\<rparr>)))))
     = [] \<and>
   (\<exists>w'. i2c_rpmsg_read silent wr_other
            (timed_out\<lparr>i2c_rpmsg := expecting 1 wr_other (i2c_rpmsg timed_out)\<rparr>) 1 True
          = Some (- ETIMEDOUT, w')) \<and>
   (\<exists>w'. i2c_rpmsg_write silent wr_other
            (timed_out\<lparr>i2c_rpmsg := expecting 1 wr_other (i2c_rpmsg timed_out)\<rparr>) 1 True
          = Some (- ETIMEDOUT, w')) \<and>
   takes timed_out (0, response_frame 1 0x50 0 2 [0xDE, 0xAD], 34) \<and>
   i2c_rpbus_xfer silent 1 [wr_msg] timed_out =
     Some (- 110, [wr_msg],
           after None [request 0 0x201 2 [], request 1 0x200 1 [0xAA]] [0, 0] no_rx) \<and>
   (\<exists>w1'. i2c_rpbus_xfer silent 1 [wr_msg]
             (deliver [(0, response_frame 1 0x50 0 2 [0xDE, 0xAD], 34)] timed_out)
           = Some (- 110, [wr_msg], w1') \<and>
         mem w1' = mem (after None [request 0 0x201 2 [], request 1 0x200 1 [0xAA]] [0, 0] no_rx) \<and>
         sent w1' = sent (after None [request 0 0x201 2 [], request 1 0x200 1 [0xAA]] [0, 0] no_rx)) \<and>
   i2c_rpmsg_cb 0 34 (timed_out\<lparr>rxbuf := rx0 (response_frame 1 0x51 9 0 [])\<rparr>)
     = (- EINVAL, timed_out\<lparr>rxbuf := rx0 (response_frame 1 0x51 9 0 [])\<rparr>) \<and>
   accepted (timed_out_other\<lparr>i2c_rpmsg := expecting 1 wr_msg (i2c_rpmsg timed_out_other)\<rparr>)
       ([(0, response_frame 1 0x50 0 1 [], 34)] @ (Suc 0, response_frame 1 0x51 9 0 [], 34) # [])
     = [(0, response_frame 1 0x50 0 1 [], 34)] \<and>
   map_option (\<lambda>x. (fst x, mem (snd x)))
       (i2c_rpmsg_write elsewhere wr_msg
          (timed_out_other\<lparr>i2c_rpmsg := expecting 1 wr_msg (i2c_rpmsg timed_out_other)\<rparr>) 1 True)
     = map_option (\<lambda>x. (fst x, mem (snd x)))
       (i2c_rpmsg_write
          (elsewhere(Suc 0 := \<lparr>send_ret = 0, replies = [(0, response_frame 1 0x50 0 1 [], 34)]\<rparr>))
          wr_msg
          (timed_out_other\<lparr>i2c_rpmsg := expecting 1 wr_msg (i2c_rpmsg timed_out_other)\<rparr>) 1 True)"
proof -
  let ?w = "timed_out\<lparr>i2c_rpmsg := expecting 1 wr_other (i2c_rpmsg timed_out)\<rparr>"
  let ?late = "(0 :: nat, response_frame 1 0x50 0 2 [0xDE, 0xAD], 34 :: int)"
  let ?w1 = "after None [request 0 0x201 2 [], request 1 0x200 1 [0xAA]] [0, 0] no_rx"
  let ?v = "timed_out\<lparr>rxbuf := rx0 (response_frame 1 0x51 9 0 [])\<rparr>"
  let ?u = "timed_out_other\<lparr>i2c_rpmsg := expecting 1 wr_msg (i2c_rpmsg timed_out_other)\<rparr>"
  let ?ans = "(0 :: nat, response_frame 1 0x50 0 1 [], 34 :: int)"
  let ?stray = "response_frame 1 0x51 9 0 []"
  let ?ch2 = "elsewhere(Suc 0 := \<lparr>send_ret = 0, replies = [?ans]\<rparr>)"
  note t = timeout_and_stray_response
    [where w = ?w and pmsg = wr_other and ch = silent and bus = 1 and is_last = True
       and nr = 1 and msgs = "[wr_msg]" and ?w0.0 = timed_out and ret = "- 110" and ms = "[wr_msg]"
       and ?w1.0 = ?w1 and ds = "[?late]"
       and v = ?v and a = 0 and n = 34
       and ?ch1.0 = elsewhere and ?ch2.0 = ?ch2 and u = ?u and es = "[?ans]" and b = "Suc 0"
       and f = ?stray and k = 34 and es' = "[]" and pm = wr_msg and ?bus1.0 = 1 and il = True]
  have rp: "i_rpdev (i2c_rpmsg ?w)" by (simp add: timed_out_def after_def expecting_def)
  have ln: "unat (m_len wr_other) \<le> I2C_RPMSG_MAX_BUF_SIZE"
    by (simp add: wr_other_def I2C_RPMSG_MAX_BUF_SIZE_def)
  have sr: "0 \<le> send_ret (silent (length (sent ?w)))" by (simp add: silent_def)
  have na: "accepted ?w (replies (silent (length (sent ?w)))) = []"
    by (rule silent_nothing)
  from t rp ln sr na have c1:
    "(\<exists>w'. i2c_rpmsg_read silent wr_other ?w 1 True = Some (- ETIMEDOUT, w')) \<and>
     (\<exists>w'. i2c_rpmsg_write silent wr_other ?w 1 True = Some (- ETIMEDOUT, w'))"
    by blast
  have tk: "takes timed_out ?late"
    by (simp add: takes_iff timed_out_def after_def response_frame_def consts_defs)
  have st: "xfer_state silent 1 [wr_msg] timed_out 0 = Some (False, [wr_msg], timed_out)"
    by simp
  have run: "i2c_rpbus_xfer silent 1 [wr_msg] timed_out = Some (- 110, [wr_msg], ?w1)"
    using xfer_fail [of silent 1 "[wr_msg]" timed_out 0 False "[wr_msg]" timed_out "- 110" True
        "[wr_msg]" ?w1] silent_pass
    by simp
  from t run have c2:
    "\<exists>w1'. i2c_rpbus_xfer silent 1 [wr_msg] (deliver [?late] timed_out) = Some (- 110, [wr_msg], w1') \<and>
         mem w1' = mem ?w1 \<and> sent w1' = sent ?w1"
    by blast
  have mm: "r_addr (rxbuf ?v 0) \<noteq> i_addr (i2c_rpmsg ?v)"
    by (simp add: timed_out_def after_def rx0_def response_frame_def)
  from t mm have c3: "i2c_rpmsg_cb 0 34 ?v = (- EINVAL, ?v)"
    by blast
  have n: "length (sent ?u) = Suc 0" by (simp add: timed_out_other_def)
  have r1: "replies (elsewhere (length (sent ?u))) = [?ans] @ (Suc 0, ?stray, 34) # []"
    unfolding n by (simp add: elsewhere_def)
  have r2: "replies (?ch2 (length (sent ?u))) = [?ans] @ []"
    unfolding n by simp
  have s12: "send_ret (elsewhere (length (sent ?u))) = send_ret (?ch2 (length (sent ?u)))"
    unfolding n by (simp add: elsewhere_def)
  have ad: "r_addr ?stray \<noteq> i_addr (i2c_rpmsg ?u)"
    by (simp add: response_frame_def expecting_def wr_msg_def)
  have ac: "accepted ?u ([?ans] @ []) = [?ans]"
    by (simp add: accepted_def takes_iff timed_out_other_def expecting_def wr_msg_def
        response_frame_def consts_defs)
  have pv: "Suc 0 \<noteq> fst (last (accepted ?u ([?ans] @ [])))"
    unfolding ac by simp
  from t r1 r2 s12 ad pv have c4:
    "accepted ?u ([?ans] @ (Suc 0, ?stray, 34) # []) = accepted ?u ([?ans] @ []) \<and>
     map_option (\<lambda>x. (fst x, mem (snd x))) (i2c_rpmsg_write elsewhere wr_msg ?u 1 True) =
     map_option (\<lambda>x. (fst x, mem (snd x))) (i2c_rpmsg_write ?ch2 wr_msg ?u 1 True)"
    by blast
  from c4 ac have c5: "accepted ?u ([?ans] @ (Suc 0, ?stray, 34) # []) = [?ans]"
    by simp
  from na c1 tk run c2 c3 c4 c5 show ?thesis by (simp only: simp_thms)
qed

text \<open>
  The claim fails in three ways. The expected bus and address stay those of the
  exchange that timed out until the next message sets them: a read of device 0x50
  times out; its answer, arriving afterwards, is taken by the callback, and arriving
  in the wait of a following write to the same device it ends that wait, so the
  write returns success although no answer to it was delivered. An exchange whose
  frame \<open>rpmsg_send\<close> rejects gets no response and returns the error of the send, -12,
  not \<open>-ETIMEDOUT\<close>. And the exchange reads the return value through the stored address
  after the callback returned: a write to device 0x51 times out; in the wait of a
  following write to device 0x50 the answer to that write arrives, with return value
  0, and then the late answer of device 0x51, with return value 9, in the same
  receive buffer; the callback drops the late answer, yet the write returns -9. (With
  the late answer in another receive buffer the write succeeds.)
\<close>

theorem late_response_resolves_next_exchange:
  "i2c_rpbus_xfer late 1 [rd_msg] world0 = Some (- ETIMEDOUT, [rd_msg], timed_out) \<and>
   i2c_rpmsg_cb 0 34 (timed_out\<lparr>rxbuf := rx0 (response_frame 1 0x50 0 2 [0xDE, 0xAD])\<rparr>)
     = (0, after (Some 0) [request 0 0x201 2 []] [0, 0] (rx0 (response_frame 1 0x50 0 2 [0xDE, 0xAD]))
             \<lparr>i2c_rpmsg := complete ((i2c_rpmsg timed_out)\<lparr>i_msg := Some 0\<rparr>)\<rparr>) \<and>
   replies (late (length (sent timed_out)))
     = [(0, response_frame 1 0x50 0 2 [0xDE, 0xAD], 34)] \<and>
   i2c_rpbus_xfer late 1 [wr_msg] timed_out =
     Some (1, [wr_msg],
           after (Some 0) [request 0 0x201 2 [], request 1 0x200 1 [0xAA]] [0, 0]
             (rx0 (response_frame 1 0x50 0 2 [0xDE, 0xAD]))) \<and>
   replies (rejecting (length (sent world0))) = [] \<and>
   i2c_rpbus_xfer rejecting 1 [wr_msg] world0 =
     Some (- 12, [wr_msg], after None [request 1 0x200 1 [0xAA]] [0, 0] no_rx) \<and>
   - 12 \<noteq> - ETIMEDOUT \<and>
   i2c_rpbus_xfer overwriting 1 [wr_other] world0 = Some (- ETIMEDOUT, [wr_other], timed_out_other) \<and>
   replies (overwriting (length (sent timed_out_other)))
     = [(0, response_frame 1 0x50 0 1 [], 34), (0, response_frame 1 0x51 9 0 [], 34)] \<and>
   i2c_rpmsg_cb 0 34
       (timed_out_other\<lparr>i2c_rpmsg := expecting 1 wr_msg (i2c_rpmsg timed_out_other),
                         rxbuf := rx0 (response_frame 1 0x51 9 0 [])\<rparr>)
     = (- EINVAL,
        timed_out_other\<lparr>i2c_rpmsg := expecting 1 wr_msg (i2c_rpmsg timed_out_other),
                         rxbuf := rx0 (response_frame 1 0x51 9 0 [])\<rparr>) \<and>
   i2c_rpbus_xfer overwriting 1 [wr_msg] timed_out_other =
     Some (- 9, [wr_msg],
           after (Some 0) [(request 1 0x200 1 [0xAA])\<lparr>r_addr := 0x51\<rparr>, request 1 0x200 1 [0xAA]]
             [0, 0] (rx0 (response_frame 1 0x51 9 0 []))) \<and>
   i2c_rpbus_xfer elsewhere 1 [wr_msg] timed_out_other =
     Some (1, [wr_msg],
           after (Some 0) [(request 1 0x200 1 [0xAA])\<lparr>r_addr := 0x51\<rparr>, request 1 0x200 1 [0xAA]]
             [0, 0] ((rx0 (response_frame 1 0x50 0 1 []))(Suc 0 := response_frame 1 0x51 9 0 [])))"
proof -
  have a: "i2c_rpbus_xfer late 1 [rd_msg] world0 = Some (- ETIMEDOUT, [rd_msg], timed_out)"
    using xfer_fail [of late 1 "[rd_msg]" world0 0 False "[rd_msg]" world0 "- 110" True
        "[rd_msg]" "timed_out"] late_pass0
    by (simp add: ETIMEDOUT_def)
  have b: "i2c_rpmsg_cb 0 34 (timed_out\<lparr>rxbuf := rx0 (response_frame 1 0x50 0 2 [0xDE, 0xAD])\<rparr>)
     = (0, after (Some 0) [request 0 0x201 2 []] [0, 0] (rx0 (response_frame 1 0x50 0 2 [0xDE, 0xAD]))
             \<lparr>i2c_rpmsg := complete ((i2c_rpmsg timed_out)\<lparr>i_msg := Some 0\<rparr>)\<rparr>)"
    by (simp add: i2c_rpmsg_cb_def timed_out_def after_def rx0_def response_frame_def complete_def
        consts_defs)
  have c: "replies (late (length (sent timed_out)))
     = [(0, response_frame 1 0x50 0 2 [0xDE, 0xAD], 34)]"
    by (simp add: late_def timed_out_def after_def)
  have "xfer_state late 1 [wr_msg] timed_out (Suc 0) =
      Some (True, [wr_msg],
           after (Some 0) [request 0 0x201 2 [], request 1 0x200 1 [0xAA]] [0, 0]
             (rx0 (response_frame 1 0x50 0 2 [0xDE, 0xAD])))"
    by (simp add: late_pass1)
  then have d: "i2c_rpbus_xfer late 1 [wr_msg] timed_out =
     Some (1, [wr_msg],
           after (Some 0) [request 0 0x201 2 [], request 1 0x200 1 [0xAA]] [0, 0]
             (rx0 (response_frame 1 0x50 0 2 [0xDE, 0xAD])))"
    using xfer_done [of late 1 "[wr_msg]" "timed_out"] by simp
  have e: "replies (rejecting (length (sent world0))) = []" by (simp add: rejecting_def)
  have f: "i2c_rpbus_xfer rejecting 1 [wr_msg] world0 =
     Some (- 12, [wr_msg], after None [request 1 0x200 1 [0xAA]] [0, 0] no_rx)"
    using xfer_fail [of rejecting 1 "[wr_msg]" world0 0 False "[wr_msg]" world0 "- 12" True
        "[wr_msg]" "after None [request 1 0x200 1 [0xAA]] [0, 0] no_rx"] rejecting_pass
    by simp
  have g: "- 12 \<noteq> - ETIMEDOUT" by (simp add: ETIMEDOUT_def)
  have h: "i2c_rpbus_xfer overwriting 1 [wr_other] world0 =
      Some (- ETIMEDOUT, [wr_other], timed_out_other)"
    using xfer_fail [of overwriting 1 "[wr_other]" world0 0 False "[wr_other]" world0 "- 110" True
        "[wr_other]" timed_out_other] overwriting_pass0
    by (simp add: ETIMEDOUT_def)
  have i: "replies (overwriting (length (sent timed_out_other)))
     = [(0, response_frame 1 0x50 0 1 [], 34), (0, response_frame 1 0x51 9 0 [], 34)]"
    by (simp add: overwriting_def timed_out_other_def)
  have j: "i2c_rpmsg_cb 0 34
       (timed_out_other\<lparr>i2c_rpmsg := expecting 1 wr_msg (i2c_rpmsg timed_out_other),
                         rxbuf := rx0 (response_frame 1 0x51 9 0 [])\<rparr>)
     = (- EINVAL,
        timed_out_other\<lparr>i2c_rpmsg := expecting 1 wr_msg (i2c_rpmsg timed_out_other),
                         rxbuf := rx0 (response_frame 1 0x51 9 0 [])\<rparr>)"
    by (simp add: i2c_rpmsg_cb_def timed_out_other_def rx0_def response_frame_def expecting_def
        wr_msg_def consts_defs)
  have k: "i2c_rpbus_xfer overwriting 1 [wr_msg] timed_out_other =
     Some (- 9, [wr_msg],
           after (Some 0) [(request 1 0x200 1 [0xAA])\<lparr>r_addr := 0x51\<rparr>, request 1 0x200 1 [0xAA]]
             [0, 0] (rx0 (response_frame 1 0x51 9 0 [])))"
    using xfer_fail [of overwriting 1 "[wr_msg]" timed_out_other 0 False "[wr_msg]" timed_out_other
        "- 9" True "[wr_msg]"
        "after (Some 0) [(request 1 0x200 1 [0xAA])\<lparr>r_addr := 0x51\<rparr>, request 1 0x200 1 [0xAA]]
             [0, 0] (rx0 (response_frame 1 0x51 9 0 []))"] overwriting_pass1
    by simp
  have "xfer_state elsewhere 1 [wr_msg] timed_out_other (Suc 0) =
      Some (True, [wr_msg],
           after (Some 0) [(request 1 0x200 1 [0xAA])\<lparr>r_addr := 0x51\<rparr>, request 1 0x200 1 [0xAA]]
             [0, 0] ((rx0 (response_frame 1 0x50 0 1 []))(Suc 0 := response_frame 1 0x51 9 0 [])))"
    by (simp add: elsewhere_pass1)
  then have l: "i2c_rpbus_xfer elsewhere 1 [wr_msg] timed_out_other =
     Some (1, [wr_msg],
           after (Some 0) [(request 1 0x200 1 [0xAA])\<lparr>r_addr := 0x51\<rparr>, request 1 0x200 1 [0xAA]]
             [0, 0] ((rx0 (response_frame 1 0x50 0 1 []))(Suc 0 := response_frame 1 0x51 9 0 [])))"
    using xfer_done [of elsewhere 1 "[wr_msg]" timed_out_other] by simp
  from a b c d e f g h i j k l show ?thesis by (simp only: simp_thms)
qed

text \<open>
  C8, as the code has it: the callback never looks at the byte count of a delivery, so
  its outcome is the same for every count; a frame whose length field exceeds 16 is
  dropped with the state unchanged.
\<close>

theorem callback_ignores_byte_count:
  "i2c_rpmsg_cb a n w = i2c_rpmsg_cb a n' w \<and>
   (I2C_RPMSG_MAX_BUF_SIZE < unat (r_len (rxbuf w a)) \<longrightarrow> i2c_rpmsg_cb a n w = (- EINVAL, w))"
  by (simp add: i2c_rpmsg_cb_def)

theorem callback_ignores_byte_count_witness:
  "i2c_rpmsg_cb 0 34 (after None [] [0, 0] (rx0 (response_frame 1 0x50 0 17 [])))
     = i2c_rpmsg_cb 0 40 (after None [] [0, 0] (rx0 (response_frame 1 0x50 0 17 []))) \<and>
   I2C_RPMSG_MAX_BUF_SIZE
     < unat (r_len (rxbuf (after None [] [0, 0] (rx0 (response_frame 1 0x50 0 17 []))) 0)) \<and>
   i2c_rpmsg_cb 0 34 (after None [] [0, 0] (rx0 (response_frame 1 0x50 0 17 [])))
     = (- EINVAL, after None [] [0, 0] (rx0 (response_frame 1 0x50 0 17 [])))"
proof -
  have big: "I2C_RPMSG_MAX_BUF_SIZE
     < unat (r_len (rxbuf (after None [] [0, 0] (rx0 (response_frame 1 0x50 0 17 []))) 0))"
    by (simp add: after_def rx0_def response_frame_def I2C_RPMSG_MAX_BUF_SIZE_def)
  from big callback_ignores_byte_count
    [of 0 34 "after None [] [0, 0] (rx0 (response_frame 1 0x50 0 17 []))" 40]
  show ?thesis by blast
qed

text \<open>
  A delivery of 40 bytes, not the 34 of a frame, whose first bytes read as a response
  for the expected bus and address: the callback stores its address and fires the
  completion.
\<close>

theorem wrong_byte_count_accepted:
  "(40 :: int) \<noteq> sizeof_i2c_rpmsg_msg \<and>
   i2c_rpmsg_cb 0 40 (after None [] [0, 0] (rx0 (response_frame 1 0x50 0 2 [0xDE, 0xAD])))
     = (0, after None [] [0, 0] (rx0 (response_frame 1 0x50 0 2 [0xDE, 0xAD]))
            \<lparr>i2c_rpmsg := \<lparr>i_rpdev = True, i_msg = Some 0, i_cmd_complete = 1,
                           i_bus_id = 1, i_addr = 0x50\<rparr>\<rparr>)"
  by (simp add: sizeof_i2c_rpmsg_msg_def i2c_rpmsg_cb_def response_frame_def after_def rx0_def
      complete_def I2C_RPMSG_TYPE_RESPONSE_def I2C_RPMSG_MAX_BUF_SIZE_def)

subsection \<open>Success\<close>




subsection \<open>What a transfer changes\<close>

text \<open>
  C10: \<open>i2c_rpmsg_write\<close> leaves every caller buffer as it was, whatever it returns.
  A transfer returns the messages as it got them, and a buffer whose content differs
  afterwards is the buffer of one of its read messages.
\<close>

theorem write_messages_unchanged:
  "(i2c_rpmsg_write ch pmsg w0 bus is_last = Some (r, w1) \<longrightarrow> mem w1 = mem w0) \<and>
   (i2c_rpbus_xfer ch nr msgs w = Some (ret, msgs', w') \<longrightarrow>
      msgs' = msgs \<and>
      (\<forall>a. mem w' a \<noteq> mem w a \<longrightarrow>
         (\<exists>j<length msgs. m_flags (msgs ! j) AND I2C_M_RD \<noteq> 0 \<and> a = m_buf (msgs ! j))))"
proof (intro conjI impI)
  assume "i2c_rpmsg_write ch pmsg w0 bus is_last = Some (r, w1)"
  then show "mem w1 = mem w0"
    by (auto simp: i2c_rpmsg_write_eq split: if_splits) (metis exchange_mem snd_conv)
next
  assume run: "i2c_rpbus_xfer ch nr msgs w = Some (ret, msgs', w')"
  show "msgs' = msgs"
    by (cases rule: xfer_cases [of ch nr msgs w]) (use run in simp_all)
  show "\<forall>a. mem w' a \<noteq> mem w a \<longrightarrow>
         (\<exists>j<length msgs. m_flags (msgs ! j) AND I2C_M_RD \<noteq> 0 \<and> a = m_buf (msgs ! j))"
  proof (cases rule: xfer_cases [of ch nr msgs w])
    case (complete_run il wN)
    with run have "w' = wN" by simp
    with state_inv [OF complete_run(1)] show ?thesis by simp
  next
    case (failed_at k il wk r' il1 w1)
    with run have w': "w' = w1" by simp
    obtain r'' w1' where
      p: "i2c_rpbus_xfer_iter ch nr (length msgs) k il msgs wk =
            Some (r'', (k = length msgs - 1 \<or> il), msgs, w1')"
         "\<And>a. mem w1' a \<noteq> mem wk a \<Longrightarrow>
            m_flags (msgs ! k) AND I2C_M_RD \<noteq> 0 \<and> a = m_buf (msgs ! k) \<and> 0 \<le> r''"
      by (rule iter_props [of ch nr "length msgs" k il msgs wk]) blast
    from p(1) failed_at(3) have e: "w1' = w1" "r'' = r'" by simp_all
    from p(2) e failed_at(4) have same: "mem w1 = mem wk" by fastforce
    from state_inv [OF failed_at(2)] failed_at(1) have
      "\<forall>a. mem wk a \<noteq> mem w a \<longrightarrow>
          (\<exists>j<k. m_flags (msgs ! j) AND I2C_M_RD \<noteq> 0 \<and> a = m_buf (msgs ! j))"
      by simp
    with same w' failed_at(1) show ?thesis by (metis order.strict_trans)
  qed
qed

theorem write_messages_unchanged_witness:
  "i2c_rpmsg_write answering wr_msg (world0\<lparr>i2c_rpmsg := expecting 1 wr_msg probed\<rparr>) 1 False
     = Some (0, after (Some 0) [request 1 0 1 [0xAA]] [0, 0] (rx0 (response_frame 1 0x50 0 1 []))) \<and>
   mem (after (Some 0) [request 1 0 1 [0xAA]] [0, 0] (rx0 (response_frame 1 0x50 0 1 [])))
     = mem (world0\<lparr>i2c_rpmsg := expecting 1 wr_msg probed\<rparr>) \<and>
   i2c_rpbus_xfer answering 1 [wr_msg, rd_msg] world0 =
     Some (2, [wr_msg, rd_msg],
           after (Some 0) [request 1 0 1 [0xAA], request 0 0x201 2 []] [0xDE, 0xAD]
             (rx0 (response_frame 1 0x50 0 2 [0xDE, 0xAD]))) \<and>
   mem (after (Some 0) [request 1 0 1 [0xAA], request 0 0x201 2 []] [0xDE, 0xAD]
             (rx0 (response_frame 1 0x50 0 2 [0xDE, 0xAD]))) (m_buf wr_msg)
     = mem world0 (m_buf wr_msg)"
proof -
  let ?w2 = "after (Some 0) [request 1 0 1 [0xAA], request 0 0x201 2 []] [0xDE, 0xAD]
             (rx0 (response_frame 1 0x50 0 2 [0xDE, 0xAD]))"
  note t = write_messages_unchanged
      [of answering wr_msg "world0\<lparr>i2c_rpmsg := expecting 1 wr_msg probed\<rparr>" 1 False 0
          "after (Some 0) [request 1 0 1 [0xAA]] [0, 0] (rx0 (response_frame 1 0x50 0 1 []))"
          1 "[wr_msg, rd_msg]" world0 2 "[wr_msg, rd_msg]" ?w2]
  from t answering_write have a:
    "mem (after (Some 0) [request 1 0 1 [0xAA]] [0, 0] (rx0 (response_frame 1 0x50 0 1 [])))
       = mem (world0\<lparr>i2c_rpmsg := expecting 1 wr_msg probed\<rparr>)"
    by blast
  from t answering_run have b:
    "\<forall>a. mem ?w2 a \<noteq> mem world0 a \<longrightarrow>
       (\<exists>j<length [wr_msg, rd_msg].
           m_flags ([wr_msg, rd_msg] ! j) AND I2C_M_RD \<noteq> 0 \<and> a = m_buf ([wr_msg, rd_msg] ! j))"
    by blast
  have c: "mem ?w2 (m_buf wr_msg) = mem world0 (m_buf wr_msg)"
  proof (rule ccontr)
    assume "mem ?w2 (m_buf wr_msg) \<noteq> mem world0 (m_buf wr_msg)"
    with b obtain j where "j < length [wr_msg, rd_msg]"
      "m_flags ([wr_msg, rd_msg] ! j) AND I2C_M_RD \<noteq> 0" "m_buf wr_msg = m_buf ([wr_msg, rd_msg] ! j)"
      by blast
    then show False
      by (auto simp: less_Suc_eq wr_msg_def rd_msg_def I2C_M_RD_def)
  qed
  from answering_write a answering_run c show ?thesis by blast
qed

end
